theory Spec2Isabelle
  imports Complex_Main
begin

section \<open>Time\<close>

text \<open>
  A JavaScript \<^verbatim>\<open>Date\<close> is its time value: the number of milliseconds since the epoch,
  an integer. Comparing two dates (\<^verbatim>\<open>>=\<close>, \<^verbatim>\<open>>\<close>) and subtracting them compares and
  subtracts the time values.

  \<^verbatim>\<open>setHours\<close>, \<^verbatim>\<open>getHours\<close>, \<^verbatim>\<open>setMinutes\<close> and \<^verbatim>\<open>getMinutes\<close> work on the
  fields of local time. They are modelled after the ECMAScript definitions (LocalTime, Day,
  HourFromTime, MinFromTime, SecFromTime, msFromTime, MakeTime, MakeDate, UTC).

  Nothing in the repository fixes the time zone of the host, so it is a parameter: the offset
  of local time from UTC in milliseconds that holds at first, and the transitions, in order of
  time, each with the UTC time at which it happens and the offset that holds from then on.
  \<open>utcOffset\<close> and \<open>localOffset\<close> are what ECMAScript calls LocalTZA, at a UTC time and
  at a local time; a local time that a transition skips or repeats is read with the offset
  before the transition.
\<close>

type_synonym time = int

record timezone =
  standardOffset :: int
  transitions :: "(time \<times> int) list"

definition msPerSecond :: int where "msPerSecond = 1000"
definition msPerMinute :: int where "msPerMinute = 60000"
definition msPerHour :: int where "msPerHour = 3600000"
definition msPerDay :: int where "msPerDay = 86400000"

fun offsetAtUtc :: "int \<Rightarrow> (time \<times> int) list \<Rightarrow> time \<Rightarrow> int" where
  "offsetAtUtc off [] t = off"
| "offsetAtUtc off ((since, off') # later) t =
     (if t < since then off else offsetAtUtc off' later t)"

fun offsetAtLocal :: "int \<Rightarrow> (time \<times> int) list \<Rightarrow> int \<Rightarrow> int" where
  "offsetAtLocal off [] t = off"
| "offsetAtLocal off ((since, off') # later) t =
     (if t < since + max off off' then off else offsetAtLocal off' later t)"

definition utcOffset :: "timezone \<Rightarrow> time \<Rightarrow> int" where
  "utcOffset tz t = offsetAtUtc (standardOffset tz) (transitions tz) t"

definition localOffset :: "timezone \<Rightarrow> int \<Rightarrow> int" where
  "localOffset tz t = offsetAtLocal (standardOffset tz) (transitions tz) t"

definition LocalTime :: "timezone \<Rightarrow> time \<Rightarrow> int" where
  "LocalTime tz t = t + utcOffset tz t"

definition UTC :: "timezone \<Rightarrow> int \<Rightarrow> time" where
  "UTC tz t = t - localOffset tz t"

definition Day :: "int \<Rightarrow> int" where
  "Day t = t div msPerDay"

definition HourFromTime :: "int \<Rightarrow> int" where
  "HourFromTime t = (t div msPerHour) mod 24"

definition MinFromTime :: "int \<Rightarrow> int" where
  "MinFromTime t = (t div msPerMinute) mod 60"

definition SecFromTime :: "int \<Rightarrow> int" where
  "SecFromTime t = (t div msPerSecond) mod 60"

definition msFromTime :: "int \<Rightarrow> int" where
  "msFromTime t = t mod msPerSecond"

definition MakeTime :: "int \<Rightarrow> int \<Rightarrow> int \<Rightarrow> int \<Rightarrow> int" where
  "MakeTime h m s ms = h * msPerHour + m * msPerMinute + s * msPerSecond + ms"

definition MakeDate :: "int \<Rightarrow> int \<Rightarrow> int" where
  "MakeDate day tm = day * msPerDay + tm"

definition getHours :: "timezone \<Rightarrow> time \<Rightarrow> int" where
  "getHours tz t = HourFromTime (LocalTime tz t)"

definition getMinutes :: "timezone \<Rightarrow> time \<Rightarrow> int" where
  "getMinutes tz t = MinFromTime (LocalTime tz t)"

definition setHours :: "timezone \<Rightarrow> time \<Rightarrow> int \<Rightarrow> time" where
  "setHours tz t h =
     (let lt = LocalTime tz t
      in UTC tz (MakeDate (Day lt) (MakeTime h (MinFromTime lt) (SecFromTime lt) (msFromTime lt))))"

definition setMinutes :: "timezone \<Rightarrow> time \<Rightarrow> int \<Rightarrow> time" where
  "setMinutes tz t m =
     (let lt = LocalTime tz t
      in UTC tz (MakeDate (Day lt) (MakeTime (HourFromTime lt) m (SecFromTime lt) (msFromTime lt))))"

text \<open>
  \<^verbatim>\<open>calculateNextReminderTime\<close>: the local hour of the last dose plus 23, then the local
  minute plus 30. (Its comment says: add 23.5 hours.)
\<close>

definition calculateNextReminderTime :: "timezone \<Rightarrow> time \<Rightarrow> time" where
  "calculateNextReminderTime tz lastDoseTime =
     (let reminderTime = lastDoseTime;
          reminderTime = setHours tz reminderTime (getHours tz reminderTime + 23);
          reminderTime = setMinutes tz reminderTime (getMinutes tz reminderTime + 30)
      in reminderTime)"

text \<open>\<^verbatim>\<open>calculateSecondReminderTime\<close>: the local hour plus 24, then the local minute plus 30.\<close>

definition calculateSecondReminderTime :: "timezone \<Rightarrow> time \<Rightarrow> time" where
  "calculateSecondReminderTime tz lastDoseTime =
     (let reminderTime = lastDoseTime;
          reminderTime = setHours tz reminderTime (getHours tz reminderTime + 24);
          reminderTime = setMinutes tz reminderTime (getMinutes tz reminderTime + 30)
      in reminderTime)"

text \<open>\<^verbatim>\<open>calculateThirdReminderTime\<close>: the local hour of the second reminder time plus 24.\<close>

definition calculateThirdReminderTime :: "timezone \<Rightarrow> time \<Rightarrow> time" where
  "calculateThirdReminderTime tz secondReminderTime =
     (let reminderTime = secondReminderTime;
          reminderTime = setHours tz reminderTime (getHours tz reminderTime + 24)
      in reminderTime)"

text \<open>A zone without transitions: one offset at all times.\<close>

definition fixedOffset :: "timezone \<Rightarrow> bool" where
  "fixedOffset tz = (transitions tz = [])"

section \<open>Data model\<close>

text \<open>
  The Mongoose models \<^verbatim>\<open>Patient\<close>, \<^verbatim>\<open>Dose\<close> and \<^verbatim>\<open>Admin\<close>, with the fields that the
  reminder job, the subscription job and \<^verbatim>\<open>logDose\<close> read or write. Names, e-mail
  addresses of patients, passwords and message texts only feed the notification bodies and are
  left out. An optional field is an \<open>option\<close>: \<open>None\<close> is a field that is missing or
  \<^verbatim>\<open>null\<close>. The code stores \<^verbatim>\<open>null\<close> only in \<^verbatim>\<open>lastReminderSent\<close>,
  \<^verbatim>\<open>nextReminderTime\<close> and \<^verbatim>\<open>subscriptionExpiry\<close>; only the last of these is queried
  with \<^verbatim>\<open>$exists\<close>, which tells \<^verbatim>\<open>null\<close> from missing, so it keeps the distinction.
\<close>

datatype role = RolePatient | RoleAdmin | RoleSuperadmin

datatype cycle = new_user | active_user | inactive_user | admin_notified

datatype 'a field = Missing | Null | Value 'a

record Patient =
  p_id :: nat
  phone :: "string option"
  isActive :: bool
  role :: role
  subscriptionExpiry :: "time field"
  active :: bool
  verified :: bool
  deactivatedAt :: "time option"
  deactivationReason :: "string option"
  welcomeSmsSent :: bool
  lastDoseTime :: "time option"
  nextReminderTime :: "time option"
  reminderAttempts :: int
  lastReminderSent :: "time option"
  hasLoggedFirstDose :: bool
  smsReminderCycle :: cycle
  adminNotifiedDate :: "time option"
  lastActivationDate :: "time option"
  previousActiveState :: "bool option"
  welcomeSmsSentAt :: "time option"
  date :: time

datatype dose_type = Basal | Bolus

record Dose =
  patient :: nat
  dose_type :: dose_type
  timestamp :: time

record Admin =
  admin_email :: string
  admin_role :: role
  admin_active :: bool

text \<open>
  The record store: the \<^verbatim>\<open>patients\<close> and \<^verbatim>\<open>doses\<close> collections, each in scan order.
  Store queries always answer; a database that cannot be reached is outside this model.
\<close>

record store =
  patients :: "Patient list"
  doses :: "Dose list"

text \<open>\<^verbatim>\<open>Patient.findById\<close>.\<close>

definition findById :: "nat \<Rightarrow> Patient list \<Rightarrow> Patient option" where
  "findById i ps = find (\<lambda>p. p_id p = i) ps"

text \<open>
  \<^verbatim>\<open>Patient.findByIdAndUpdate(id, fields)\<close>: the one document with that \<^verbatim>\<open>_id\<close>
  gets the fields set; \<open>f\<close> is the setting of the fields.
\<close>

fun findByIdAndUpdate :: "nat \<Rightarrow> (Patient \<Rightarrow> Patient) \<Rightarrow> Patient list \<Rightarrow> Patient list" where
  "findByIdAndUpdate i f [] = []"
| "findByIdAndUpdate i f (p # ps) =
     (if p_id p = i then f p # ps else p # findByIdAndUpdate i f ps)"

text \<open>
  \<^verbatim>\<open>Dose.findOne({ patient: id, timestamp: { $gte: t } })\<close> is only tested for being
  found.
\<close>

definition doseSince :: "Dose list \<Rightarrow> nat \<Rightarrow> time \<Rightarrow> bool" where
  "doseSince ds i t = list_ex (\<lambda>d. patient d = i \<and> t \<le> timestamp d) ds"

text \<open>\<^verbatim>\<open>!patient.phone\<close> holds for a missing, a \<^verbatim>\<open>null\<close> and an empty phone.\<close>

definition hasPhone :: "Patient \<Rightarrow> bool" where
  "hasPhone p = (case phone p of None \<Rightarrow> False | Some s \<Rightarrow> s \<noteq> [])"

section \<open>The dose-event hook and \<^verbatim>\<open>logDose\<close>\<close>

text \<open>The field map that \<^verbatim>\<open>updatePatientReminderData\<close> writes.\<close>

definition doseReset :: "timezone \<Rightarrow> time \<Rightarrow> Patient \<Rightarrow> Patient" where
  "doseReset tz doseTime q =
     q\<lparr>lastDoseTime := Some doseTime,
       nextReminderTime := Some (calculateNextReminderTime tz doseTime),
       reminderAttempts := 0,
       lastReminderSent := None,
       hasLoggedFirstDose := True,
       smsReminderCycle := active_user\<rparr>"

definition updatePatientReminderData :: "timezone \<Rightarrow> nat \<Rightarrow> time \<Rightarrow> store \<Rightarrow> store" where
  "updatePatientReminderData tz patientId doseTime st =
     (case findById patientId (patients st) of
        None \<Rightarrow> st
      | Some found \<Rightarrow>
          st\<lparr>patients := findByIdAndUpdate patientId (doseReset tz doseTime) (patients st)\<rparr>)"

text \<open>
  \<^verbatim>\<open>Dose.findOne({ patient, type: "Basal" }).sort({ timestamp: -1 })\<close>: a Basal dose of
  the patient with the greatest timestamp. Of several with that timestamp the later in the
  collection is taken; \<^verbatim>\<open>logDose\<close> reads only the timestamp.
\<close>

fun latest :: "Dose list \<Rightarrow> Dose option" where
  "latest [] = None"
| "latest (d # ds) =
     (case latest ds of
        None \<Rightarrow> Some d
      | Some e \<Rightarrow> if timestamp d \<le> timestamp e then Some e else Some d)"

definition lastBasalDose :: "nat \<Rightarrow> Dose list \<Rightarrow> Dose option" where
  "lastBasalDose patientId ds =
     latest (filter (\<lambda>d. patient d = patientId \<and> dose_type d = Basal) ds)"

text \<open>
  The answers of \<^verbatim>\<open>logDose\<close>: 201 with the new dose, 400 with the restriction, of which
  \<^verbatim>\<open>lastBasalDose\<close> and \<^verbatim>\<open>canLogNextAt\<close> are kept, and the 500 of the \<^verbatim>\<open>catch\<close>.
\<close>

datatype response = Created Dose | Restricted time time | ServerError

fun status :: "response \<Rightarrow> nat" where
  "status (Created d) = 201"
| "status (Restricted lastBasalTime canLogNextAt) = 400"
| "status ServerError = 500"

text \<open>
  The \<^verbatim>\<open>type\<close> of the request body as it arrives: absent, or a string. The route's
  validator checks the fields \<^verbatim>\<open>doseType\<close> and \<^verbatim>\<open>doseAmount\<close>, not \<^verbatim>\<open>type\<close>, so
  \<^verbatim>\<open>logDose\<close> gets whatever was sent. The \<^verbatim>\<open>Dose\<close> schema requires \<^verbatim>\<open>type\<close> and
  takes \<^verbatim>\<open>"Basal"\<close> and \<^verbatim>\<open>"Bolus"\<close>; with anything else \<^verbatim>\<open>save()\<close> throws.
\<close>

definition castType :: "string option \<Rightarrow> dose_type option" where
  "castType ty =
     (if ty = Some ''Basal'' then Some Basal
      else if ty = Some ''Bolus'' then Some Bolus
      else None)"

text \<open>
  \<^verbatim>\<open>logDose\<close> for the authenticated patient \<open>patientId\<close> and the request body's
  \<^verbatim>\<open>type\<close> and \<^verbatim>\<open>timestamp\<close> (a valid date: the route validates it before).
  \<^verbatim>\<open>hoursDifference = (currentTime - lastBasalTime) / (1000 * 60 * 60)\<close> is below 20
  exactly when the difference of the two integer time values is below 72000000: the
  quotient of an integer below 72000000 lies at least 1/3600000 under 20, far more than
  the rounding of a double. The restriction is tested first; then \<^verbatim>\<open>save()\<close> stores the
  dose or throws, and a throw ends in the \<^verbatim>\<open>catch\<close> with 500 and nothing written.
\<close>

definition logDose :: "timezone \<Rightarrow> nat \<Rightarrow> string option \<Rightarrow> time \<Rightarrow> store \<Rightarrow> response \<times> store" where
  "logDose tz patientId ty ts st =
     (let saving =
            (case castType ty of
               None \<Rightarrow> (ServerError, st)
             | Some tp \<Rightarrow>
                 (let newDose = \<lparr>patient = patientId, dose_type = tp, timestamp = ts\<rparr>;
                      saved = st\<lparr>doses := doses st @ [newDose]\<rparr>
                  in (Created newDose,
                      updatePatientReminderData tz patientId (timestamp newDose) saved)))
      in case lastBasalDose patientId (doses st) of
           None \<Rightarrow> saving
         | Some lastBasal \<Rightarrow>
             (let lastBasalTime = timestamp lastBasal;
                  currentTime = ts
              in if currentTime - lastBasalTime < 20 * msPerHour
                 then (Restricted lastBasalTime (lastBasalTime + 20 * 60 * 60 * 1000), st)
                 else saving))"

section \<open>The reminder scan\<close>

text \<open>
  What a call of a notification function gives back: \<^verbatim>\<open>{ success: true }\<close>,
  \<^verbatim>\<open>{ success: false }\<close>, or a thrown error.
\<close>

datatype outcome = Sent | Failed | Threw

text \<open>
  The SMS functions of \<^verbatim>\<open>smsService\<close> that the scan calls:
  \<^verbatim>\<open>sendNewUserReminderSMS(phone, name, n)\<close>, \<^verbatim>\<open>sendDoseReminderSMS(phone, name, n)\<close>,
  \<^verbatim>\<open>sendThirdReminderSMS\<close> and \<^verbatim>\<open>sendSmartReactivationSMS\<close>.
\<close>

datatype sms_kind = NewUserReminder nat | DoseReminder nat | ThirdReminder | SmartReactivation

text \<open>
  The trace of a scan: every call of an SMS function and every call of
  \<^verbatim>\<open>sendInactiveUserNotificationToAdmins\<close>, with the patient's id and what the call
  gave back.
\<close>

datatype event = Sms nat sms_kind outcome | AdminAlert nat "string list" outcome

fun event_patient :: "event \<Rightarrow> nat" where
  "event_patient (Sms i k r) = i"
| "event_patient (AdminAlert i emails r) = i"

definition eventsFor :: "nat \<Rightarrow> event list \<Rightarrow> event list" where
  "eventsFor i evs = filter (\<lambda>e. event_patient e = i) evs"

text \<open>
  The surroundings of a scan: what the SMS provider answers for a patient and a message, what the admin e-mail call gives back for a patient, and the
  \<^verbatim>\<open>admins\<close> collection. \<^verbatim>\<open>sendInactiveUserNotificationToAdmins\<close> returns nothing and
  swallows the failure of each single e-mail, so \<open>Failed\<close> there (no e-mail went out) looks
  to its caller like \<open>Sent\<close>.
\<close>

record world =
  smsResult :: "nat \<Rightarrow> sms_kind \<Rightarrow> outcome"
  adminMailResult :: "nat \<Rightarrow> outcome"
  admins :: "Admin list"

text \<open>The state a scan threads through its loops: the patients collection and the trace.\<close>

type_synonym run = "Patient list \<times> event list"

text \<open>
  The block that each reminder repeats:
  \<^verbatim>\<open>try { const smsResult = await send(...); if (smsResult.success) { await
  Patient.findByIdAndUpdate(patient._id, upd) } } catch (error) { console.error(...) }\<close>.
\<close>

definition sendThenUpdate :: "world \<Rightarrow> Patient \<Rightarrow> sms_kind \<Rightarrow> (Patient \<Rightarrow> Patient) \<Rightarrow> run \<Rightarrow> run" where
  "sendThenUpdate w p k upd s =
     (case smsResult w (p_id p) k of
        Sent \<Rightarrow> (findByIdAndUpdate (p_id p) upd (fst s), snd s @ [Sms (p_id p) k Sent])
      | Failed \<Rightarrow> (fst s, snd s @ [Sms (p_id p) k Failed])
      | Threw \<Rightarrow> (fst s, snd s @ [Sms (p_id p) k Threw]))"

text \<open>The field map that \<^verbatim>\<open>handleReactivation\<close> writes; \<open>t\<close> is its \<^verbatim>\<open>new Date()\<close>.\<close>

definition reactivationReset :: "time \<Rightarrow> Patient \<Rightarrow> Patient" where
  "reactivationReset t q =
     q\<lparr>smsReminderCycle := new_user,
       hasLoggedFirstDose := False,
       reminderAttempts := 0,
       lastReminderSent := None,
       nextReminderTime := None,
       welcomeSmsSentAt := Some t\<rparr>"

text \<open>
  \<^verbatim>\<open>handleReactivation\<close>: the result of the SMS is only logged, and the reset is written
  after a successful and after an unsuccessful send alike; a thrown error skips it.
\<close>

definition handleReactivation :: "world \<Rightarrow> time \<Rightarrow> Patient \<Rightarrow> run \<Rightarrow> run" where
  "handleReactivation w t p s =
     (case smsResult w (p_id p) SmartReactivation of
        Threw \<Rightarrow> (fst s, snd s @ [Sms (p_id p) SmartReactivation Threw])
      | Sent \<Rightarrow> (findByIdAndUpdate (p_id p) (reactivationReset t) (fst s),
                 snd s @ [Sms (p_id p) SmartReactivation Sent])
      | Failed \<Rightarrow> (findByIdAndUpdate (p_id p) (reactivationReset t) (fst s),
                 snd s @ [Sms (p_id p) SmartReactivation Failed]))"

text \<open>The field map that \<^verbatim>\<open>sendAdminNotification\<close> writes.\<close>

definition adminNotified :: "time \<Rightarrow> Patient \<Rightarrow> Patient" where
  "adminNotified t q = q\<lparr>adminNotifiedDate := Some t, smsReminderCycle := admin_notified\<rparr>"

text \<open>
  \<^verbatim>\<open>sendAdminNotification\<close>: the e-mails of the active admins of role \<^verbatim>\<open>admin\<close>; with
  none, nothing is sent and nothing is written.
\<close>

definition sendAdminNotification :: "world \<Rightarrow> time \<Rightarrow> Patient \<Rightarrow> run \<Rightarrow> run" where
  "sendAdminNotification w t p s =
     (let adminEmails =
            map admin_email (filter (\<lambda>a. admin_active a \<and> admin_role a = RoleAdmin) (admins w))
      in if adminEmails \<noteq> [] then
           (case adminMailResult w (p_id p) of
              Threw \<Rightarrow> (fst s, snd s @ [AdminAlert (p_id p) adminEmails Threw])
            | Sent \<Rightarrow> (findByIdAndUpdate (p_id p) (adminNotified t) (fst s),
                       snd s @ [AdminAlert (p_id p) adminEmails Sent])
            | Failed \<Rightarrow> (findByIdAndUpdate (p_id p) (adminNotified t) (fst s),
                       snd s @ [AdminAlert (p_id p) adminEmails Failed]))
         else s)"

text \<open>The four queries of the scan. \<^verbatim>\<open>twoHoursAgo\<close> is taken at the scan's \<open>now\<close>.\<close>

definition reactivationQuery :: "time \<Rightarrow> Patient \<Rightarrow> bool" where
  "reactivationQuery now p =
     (let twoHoursAgo = now - 2 * 60 * 60 * 1000
      in active p \<and> verified p \<and> previousActiveState p = Some False \<and>
         (case lastActivationDate p of
            None \<Rightarrow> False
          | Some a \<Rightarrow> twoHoursAgo \<le> a \<and> date p < a))"

definition newUserQuery :: "Patient \<Rightarrow> bool" where
  "newUserQuery p =
     (role p = RolePatient \<and> active p \<and> verified p \<and> smsReminderCycle p = new_user \<and>
      welcomeSmsSent p \<and> welcomeSmsSentAt p \<noteq> None \<and> \<not> hasLoggedFirstDose p \<and> isActive p)"

definition activeUserQuery :: "Patient \<Rightarrow> bool" where
  "activeUserQuery p =
     (role p = RolePatient \<and> active p \<and> verified p \<and> smsReminderCycle p = active_user \<and>
      hasLoggedFirstDose p \<and> isActive p)"

definition inactiveUserQuery :: "Patient \<Rightarrow> bool" where
  "inactiveUserQuery p =
     (role p = RolePatient \<and> active p \<and> verified p \<and> smsReminderCycle p = inactive_user \<and>
      reminderAttempts p = 3 \<and> adminNotifiedDate p = None \<and> isActive p)"

text \<open>
  \<^verbatim>\<open>!lastHandled || lastActivation > lastHandled\<close>, with
  \<^verbatim>\<open>lastHandled = patient.welcomeSmsSentAt\<close>; a missing \<^verbatim>\<open>lastActivation\<close> compares
  false.
\<close>

definition notYetHandled :: "Patient \<Rightarrow> bool" where
  "notYetHandled p =
     (case welcomeSmsSentAt p of
        None \<Rightarrow> True
      | Some lastHandled \<Rightarrow>
          (case lastActivationDate p of None \<Rightarrow> False | Some lastActivation \<Rightarrow> lastHandled < lastActivation))"

text \<open>The body of the loop over \<^verbatim>\<open>reactivatedPatients\<close>.\<close>

definition reactivationBody :: "world \<Rightarrow> time \<Rightarrow> Patient \<Rightarrow> run \<Rightarrow> run" where
  "reactivationBody w now p s = (if notYetHandled p then handleReactivation w now p s else s)"

text \<open>
  The body of the loop over \<^verbatim>\<open>newUsers\<close>. Both blocks test the patient as the query
  returned it. A missing \<^verbatim>\<open>welcomeSmsSentAt\<close> would make every comparison false.
\<close>

definition newUserBody :: "world \<Rightarrow> time \<Rightarrow> Dose list \<Rightarrow> Patient \<Rightarrow> run \<Rightarrow> run" where
  "newUserBody w now ds p s =
     (if \<not> hasPhone p then s
      else case welcomeSmsSentAt p of
        None \<Rightarrow> s
      | Some welcomeSmsTime \<Rightarrow>
         (let sixHoursLater = welcomeSmsTime + 6 * 60 * 60 * 1000;
              twentyFourHoursLater = welcomeSmsTime + 24 * 60 * 60 * 1000;
              s = (if sixHoursLater \<le> now \<and> reminderAttempts p = 0
                   then if \<not> doseSince ds (p_id p) welcomeSmsTime
                        then sendThenUpdate w p (NewUserReminder 1)
                               (\<lambda>q. q\<lparr>reminderAttempts := 1, lastReminderSent := Some now\<rparr>) s
                        else s
                   else s);
              s = (if twentyFourHoursLater \<le> now \<and> reminderAttempts p = 1
                   then if \<not> doseSince ds (p_id p) sixHoursLater
                        then sendThenUpdate w p (NewUserReminder 2)
                               (\<lambda>q. q\<lparr>reminderAttempts := 2, lastReminderSent := Some now,
                                       smsReminderCycle := inactive_user\<rparr>) s
                        else s
                   else s)
          in s))"

text \<open>The body of the loop over \<^verbatim>\<open>activeUsers\<close>.\<close>

definition activeUserBody :: "timezone \<Rightarrow> world \<Rightarrow> time \<Rightarrow> Dose list \<Rightarrow> Patient \<Rightarrow> run \<Rightarrow> run" where
  "activeUserBody tz w now ds p s =
     (if \<not> hasPhone p then s
      else case lastDoseTime p of
        None \<Rightarrow> s
      | Some lastDose \<Rightarrow>
         (let firstReminderTime = calculateNextReminderTime tz lastDose;
              secondReminderTime = calculateSecondReminderTime tz lastDose;
              thirdReminderTime = calculateThirdReminderTime tz secondReminderTime;
              s = (if firstReminderTime \<le> now \<and> reminderAttempts p = 0
                   then if \<not> doseSince ds (p_id p) firstReminderTime
                        then sendThenUpdate w p (DoseReminder 1)
                               (\<lambda>q. q\<lparr>reminderAttempts := 1, lastReminderSent := Some now\<rparr>) s
                        else s
                   else s);
              s = (if secondReminderTime \<le> now \<and> reminderAttempts p = 1
                   then if \<not> doseSince ds (p_id p) secondReminderTime
                        then sendThenUpdate w p (DoseReminder 2)
                               (\<lambda>q. q\<lparr>reminderAttempts := 2, lastReminderSent := Some now\<rparr>) s
                        else s
                   else s);
              s = (if thirdReminderTime \<le> now \<and> reminderAttempts p = 2
                   then if \<not> doseSince ds (p_id p) thirdReminderTime
                        then sendThenUpdate w p ThirdReminder
                               (\<lambda>q. q\<lparr>reminderAttempts := 3, lastReminderSent := Some now,
                                       smsReminderCycle := inactive_user\<rparr>) s
                        else s
                   else s)
          in s))"

text \<open>
  One run of the cron callback of \<^verbatim>\<open>scheduleComprehensiveReminderJob\<close> at time \<open>now\<close>.
  Each query reads the collection as the loops before it left it. The run is taken as
  instantaneous: every \<^verbatim>\<open>new Date()\<close> and \<^verbatim>\<open>Date.now()\<close> during the run gives \<open>now\<close>.
\<close>

definition reminderTick :: "timezone \<Rightarrow> world \<Rightarrow> time \<Rightarrow> store \<Rightarrow> store \<times> event list" where
  "reminderTick tz w now st =
     (let s = (patients st, []);
          reactivatedPatients = filter (reactivationQuery now) (fst s);
          s = fold (reactivationBody w now) reactivatedPatients s;
          newUsers = filter newUserQuery (fst s);
          s = fold (newUserBody w now (doses st)) newUsers s;
          activeUsers = filter activeUserQuery (fst s);
          s = fold (activeUserBody tz w now (doses st)) activeUsers s;
          inactiveUsers = filter inactiveUserQuery (fst s);
          s = fold (sendAdminNotification w now) inactiveUsers s
      in (st\<lparr>patients := fst s\<rparr>, snd s))"

text \<open>
  A tick handles the reactivation of a patient when the query returns the patient and the
  loop's test lets \<^verbatim>\<open>handleReactivation\<close> run.
\<close>

definition reactivationDue :: "time \<Rightarrow> Patient \<Rightarrow> bool" where
  "reactivationDue now p = (reactivationQuery now p \<and> notYetHandled p)"

text \<open>The reminder messages, as opposed to the reactivation message and the admin alert.\<close>

fun isReminder :: "event \<Rightarrow> bool" where
  "isReminder (Sms i (NewUserReminder n) r) = True"
| "isReminder (Sms i (DoseReminder n) r) = True"
| "isReminder (Sms i ThirdReminder r) = True"
| "isReminder (Sms i SmartReactivation r) = False"
| "isReminder (AdminAlert i emails r) = False"

text \<open>
  \<^verbatim>\<open>cron.schedule\<close> runs the callback again and again; the ticks of one scheduler do not
  overlap. Each tick has its own time and its own surroundings.
\<close>

fun runTicks :: "timezone \<Rightarrow> (world \<times> time) list \<Rightarrow> store \<Rightarrow> store \<times> event list" where
  "runTicks tz [] st = (st, [])"
| "runTicks tz (wn # ticks) st =
     (let r1 = reminderTick tz (fst wn) (snd wn) st;
          r2 = runTicks tz ticks (fst r1)
      in (fst r2, snd r1 @ snd r2))"

section \<open>The subscription check\<close>

text \<open>
  The e-mail functions of \<^verbatim>\<open>emailService\<close> that the daily job calls:
  \<^verbatim>\<open>sendSubscriptionExpiryWarning\<close>, \<^verbatim>\<open>sendSubscriptionExpiryUrgent\<close> and
  \<^verbatim>\<open>sendSubscriptionExpiredNotification\<close>. Each awaits the mailer and returns nothing, or
  throws; the job does not look at a result, so only \<open>Threw\<close> differs for it.
\<close>

datatype mail_kind = ExpiryWarning | ExpiryUrgent | ExpiredNotification

datatype mail_event = Mail nat mail_kind outcome

fun mail_patient :: "mail_event \<Rightarrow> nat" where
  "mail_patient (Mail i k r) = i"

definition mailsFor :: "nat \<Rightarrow> mail_event list \<Rightarrow> mail_event list" where
  "mailsFor i evs = filter (\<lambda>e. mail_patient e = i) evs"

text \<open>
  \<^verbatim>\<open>new Date(patient.subscriptionExpiry)\<close>: of \<^verbatim>\<open>null\<close> it is the epoch, of a missing
  field it is an invalid date, which makes every comparison false.
\<close>

fun newDate :: "time field \<Rightarrow> time option" where
  "newDate Missing = None"
| "newDate Null = Some 0"
| "newDate (Value t) = Some t"

text \<open>
  \<^verbatim>\<open>Math.ceil(timeDiff / (1000 * 60 * 60 * 24))\<close>. The double quotient has the ceiling of
  the exact quotient for all dates less than a hundred million days apart: a quotient that is
  not whole lies at least 1/86400000 from a whole number, more than the rounding error.
\<close>

definition daysUntilExpiry :: "time \<Rightarrow> time \<Rightarrow> int" where
  "daysUntilExpiry expiryDate now =
     (let timeDiff = expiryDate - now in - ((- timeDiff) div msPerDay))"

text \<open>The field map of the deactivation; \<open>t\<close> is its \<^verbatim>\<open>new Date()\<close>.\<close>

definition deactivate :: "time \<Rightarrow> Patient \<Rightarrow> Patient" where
  "deactivate t q =
     q\<lparr>active := False, deactivatedAt := Some t,
       deactivationReason := Some ''Subscription expired''\<rparr>"

definition subscriptionQuery :: "Patient \<Rightarrow> bool" where
  "subscriptionQuery p =
     (active p \<and> verified p \<and> isActive p \<and> subscriptionExpiry p \<noteq> Missing)"

type_synonym mail_run = "Patient list \<times> mail_event list"

text \<open>
  The body of the loop over the patients. One \<^verbatim>\<open>try\<close> holds the three branches, so a
  throwing \<^verbatim>\<open>sendSubscriptionExpiredNotification\<close> leaves the branch before the
  deactivation.
\<close>

definition subscriptionBody :: "(nat \<Rightarrow> mail_kind \<Rightarrow> outcome) \<Rightarrow> time \<Rightarrow> Patient \<Rightarrow> mail_run \<Rightarrow> mail_run" where
  "subscriptionBody mail now p s =
     (case newDate (subscriptionExpiry p) of
        None \<Rightarrow> s
      | Some expiryDate \<Rightarrow>
         (let days = daysUntilExpiry expiryDate now
          in if days = 7 then
               (fst s, snd s @ [Mail (p_id p) ExpiryWarning (mail (p_id p) ExpiryWarning)])
             else if days = 1 then
               (fst s, snd s @ [Mail (p_id p) ExpiryUrgent (mail (p_id p) ExpiryUrgent)])
             else if days \<le> 0 then
               (let s = (if days = 0
                         then (fst s, snd s @ [Mail (p_id p) ExpiredNotification
                                                 (mail (p_id p) ExpiredNotification)])
                         else s)
                in if days = 0 \<and> mail (p_id p) ExpiredNotification = Threw then s
                   else if active p
                        then (findByIdAndUpdate (p_id p) (deactivate now) (fst s), snd s)
                        else s)
             else s))"

text \<open>
  One run of the cron callback of \<^verbatim>\<open>scheduleSubscriptionJob\<close> at time \<open>now\<close>, taken as
  instantaneous like a run of the reminder scan: the \<^verbatim>\<open>new Date()\<close> of the deactivation
  gives \<open>now\<close>.
\<close>

definition subscriptionTick :: "(nat \<Rightarrow> mail_kind \<Rightarrow> outcome) \<Rightarrow> time \<Rightarrow> store \<Rightarrow> store \<times> mail_event list" where
  "subscriptionTick mail now st =
     (let found = filter subscriptionQuery (patients st);
          s = fold (subscriptionBody mail now) found (patients st, [])
      in (st\<lparr>patients := fst s\<rparr>, snd s))"

section \<open>What a tick does to one patient\<close>

text \<open>
  Each loop body reads one patient of its query's result and writes at most one field map to
  that patient's document. A step gives that field map (\<open>id\<close> when nothing is written) and
  the calls made. The lemmas \<open>newUserBody_step\<close>, \<open>activeUserBody_step\<close>,
  \<open>reactivationBody_step\<close> and \<open>sendAdminNotification_step\<close> below show that the loop
  bodies do what the steps say, and \<open>reminderTick_run\<close> that a tick does to every patient
  what \<open>patientTick\<close> says.
\<close>

definition sendStep :: "world \<Rightarrow> Patient \<Rightarrow> sms_kind \<Rightarrow> (Patient \<Rightarrow> Patient) \<Rightarrow> (Patient \<Rightarrow> Patient) \<times> event list" where
  "sendStep w p k upd =
     (if smsResult w (p_id p) k = Sent then upd else id,
      [Sms (p_id p) k (smsResult w (p_id p) k)])"

definition reactivationStep :: "world \<Rightarrow> time \<Rightarrow> Patient \<Rightarrow> (Patient \<Rightarrow> Patient) \<times> event list" where
  "reactivationStep w now p =
     (if notYetHandled p
      then (if smsResult w (p_id p) SmartReactivation = Threw then id else reactivationReset now,
            [Sms (p_id p) SmartReactivation (smsResult w (p_id p) SmartReactivation)])
      else (id, []))"

definition newUserStep :: "world \<Rightarrow> time \<Rightarrow> Dose list \<Rightarrow> Patient \<Rightarrow> (Patient \<Rightarrow> Patient) \<times> event list" where
  "newUserStep w now ds p =
     (if \<not> hasPhone p then (id, [])
      else case welcomeSmsSentAt p of
        None \<Rightarrow> (id, [])
      | Some t \<Rightarrow>
          if t + 21600000 \<le> now \<and> reminderAttempts p = 0 \<and> \<not> doseSince ds (p_id p) t
          then sendStep w p (NewUserReminder 1)
                 (\<lambda>q. q\<lparr>reminderAttempts := 1, lastReminderSent := Some now\<rparr>)
          else if t + 86400000 \<le> now \<and> reminderAttempts p = 1 \<and>
                  \<not> doseSince ds (p_id p) (t + 21600000)
          then sendStep w p (NewUserReminder 2)
                 (\<lambda>q. q\<lparr>reminderAttempts := 2, lastReminderSent := Some now,
                         smsReminderCycle := inactive_user\<rparr>)
          else (id, []))"

definition activeUserStep :: "timezone \<Rightarrow> world \<Rightarrow> time \<Rightarrow> Dose list \<Rightarrow> Patient \<Rightarrow> (Patient \<Rightarrow> Patient) \<times> event list" where
  "activeUserStep tz w now ds p =
     (if \<not> hasPhone p then (id, [])
      else case lastDoseTime p of
        None \<Rightarrow> (id, [])
      | Some t \<Rightarrow>
         (let first = calculateNextReminderTime tz t;
              second = calculateSecondReminderTime tz t;
              third = calculateThirdReminderTime tz second
          in if first \<le> now \<and> reminderAttempts p = 0 \<and> \<not> doseSince ds (p_id p) first
             then sendStep w p (DoseReminder 1)
                    (\<lambda>q. q\<lparr>reminderAttempts := 1, lastReminderSent := Some now\<rparr>)
             else if second \<le> now \<and> reminderAttempts p = 1 \<and> \<not> doseSince ds (p_id p) second
             then sendStep w p (DoseReminder 2)
                    (\<lambda>q. q\<lparr>reminderAttempts := 2, lastReminderSent := Some now\<rparr>)
             else if third \<le> now \<and> reminderAttempts p = 2 \<and> \<not> doseSince ds (p_id p) third
             then sendStep w p ThirdReminder
                    (\<lambda>q. q\<lparr>reminderAttempts := 3, lastReminderSent := Some now,
                            smsReminderCycle := inactive_user\<rparr>)
             else (id, [])))"

definition adminStep :: "world \<Rightarrow> time \<Rightarrow> Patient \<Rightarrow> (Patient \<Rightarrow> Patient) \<times> event list" where
  "adminStep w now p =
     (let adminEmails =
            map admin_email (filter (\<lambda>a. admin_active a \<and> admin_role a = RoleAdmin) (admins w))
      in if adminEmails \<noteq> []
         then (if adminMailResult w (p_id p) = Threw then id else adminNotified now,
               [AdminAlert (p_id p) adminEmails (adminMailResult w (p_id p))])
         else (id, []))"

text \<open>A loop over a query's result, seen from one patient of the collection.\<close>

definition pass :: "(Patient \<Rightarrow> bool) \<Rightarrow> (Patient \<Rightarrow> (Patient \<Rightarrow> Patient) \<times> event list) \<Rightarrow> Patient \<Rightarrow> Patient \<times> event list" where
  "pass query step p = (if query p then (fst (step p) p, snd (step p)) else (p, []))"

definition patientTick :: "timezone \<Rightarrow> world \<Rightarrow> time \<Rightarrow> Dose list \<Rightarrow> Patient \<Rightarrow> Patient \<times> event list" where
  "patientTick tz w now ds p =
     (let r1 = pass (reactivationQuery now) (reactivationStep w now) p;
          r2 = pass newUserQuery (newUserStep w now ds) (fst r1);
          r3 = pass activeUserQuery (activeUserStep tz w now ds) (fst r2);
          r4 = pass inactiveUserQuery (adminStep w now) (fst r3)
      in (fst r4, snd r1 @ snd r2 @ snd r3 @ snd r4))"

text \<open>
  What the daily check does to one patient of its query's result: the field map it writes
  and the e-mails it calls. The lemma \<open>subscriptionBody_step\<close> below shows that the loop
  body does what the step says.
\<close>

definition subscriptionStep :: "(nat \<Rightarrow> mail_kind \<Rightarrow> outcome) \<Rightarrow> time \<Rightarrow> Patient \<Rightarrow> (Patient \<Rightarrow> Patient) \<times> mail_event list" where
  "subscriptionStep mail now p =
     (case newDate (subscriptionExpiry p) of
        None \<Rightarrow> (id, [])
      | Some expiryDate \<Rightarrow>
         (let days = daysUntilExpiry expiryDate now
          in if days = 7 then
               (id, [Mail (p_id p) ExpiryWarning (mail (p_id p) ExpiryWarning)])
             else if days = 1 then
               (id, [Mail (p_id p) ExpiryUrgent (mail (p_id p) ExpiryUrgent)])
             else if days \<le> 0 then
               (if (days = 0 \<and> mail (p_id p) ExpiredNotification = Threw) \<or> \<not> active p
                then id else deactivate now,
                if days = 0
                then [Mail (p_id p) ExpiredNotification (mail (p_id p) ExpiredNotification)]
                else [])
             else (id, [])))"

section \<open>Words of the specification\<close>

text \<open>"The patient's most recent Basal dose".\<close>

definition mostRecentBasal :: "Dose list \<Rightarrow> nat \<Rightarrow> Dose \<Rightarrow> bool" where
  "mostRecentBasal ds i b =
     (b \<in> set ds \<and> patient b = i \<and> dose_type b = Basal \<and>
      (\<forall>d\<in>set ds. patient d = i \<and> dose_type d = Basal \<longrightarrow> timestamp d \<le> timestamp b))"

section \<open>Inputs to run the code on\<close>

text \<open>A registered, verified, active patient who has received the welcome SMS at time 0.\<close>

definition patient0 :: Patient where
  "patient0 =
     \<lparr>p_id = 1, phone = Some ''0553018172'', isActive = True, role = RolePatient,
      subscriptionExpiry = Missing, active = True, verified = True, deactivatedAt = None,
      deactivationReason = None, welcomeSmsSent = True, lastDoseTime = None,
      nextReminderTime = None, reminderAttempts = 0, lastReminderSent = None,
      hasLoggedFirstDose = False, smsReminderCycle = new_user, adminNotifiedDate = None,
      lastActivationDate = None, previousActiveState = None, welcomeSmsSentAt = Some 0,
      date = 0\<rparr>"

text \<open>
  A host on UTC, and a host on US Eastern time in 2025: five hours behind UTC, four hours
  from 9 March 2025, 07:00 UTC, and five hours again from 2 November 2025, 06:00 UTC.
\<close>

definition utcZone :: timezone where
  "utcZone = \<lparr>standardOffset = 0, transitions = []\<rparr>"

definition usEastern :: timezone where
  "usEastern =
     \<lparr>standardOffset = - 18000000,
      transitions = [(1741503600000, - 14400000), (1762063200000, - 18000000)]\<rparr>"

text \<open>A Basal dose of patient 1 at time 0.\<close>

definition dose0 :: Dose where
  "dose0 = \<lparr>patient = 1, dose_type = Basal, timestamp = 0\<rparr>"

text \<open>Surroundings in which every send succeeds and one admin is there to be alerted.\<close>

definition world0 :: world where
  "world0 =
     \<lparr>smsResult = (\<lambda>i k. Sent), adminMailResult = (\<lambda>i. Sent),
      admins = [\<lparr>admin_email = ''admin@example.org'', admin_role = RoleAdmin,
                 admin_active = True\<rparr>]\<rparr>"


definition activeUser :: Patient where
  "activeUser =
     patient0\<lparr>hasLoggedFirstDose := True, smsReminderCycle := active_user,
              lastDoseTime := Some 0\<rparr>"

text \<open>
  A patient who let all three reminders pass: cycle \<open>inactive_user\<close>, three attempts, no
  admin alert yet.
\<close>

definition lapsedUser :: Patient where
  "lapsedUser =
     patient0\<lparr>hasLoggedFirstDose := True, smsReminderCycle := inactive_user,
              reminderAttempts := 3, lastDoseTime := Some 0, lastReminderSent := Some 180000000\<rparr>"

text \<open>Surroundings without any admin, and a patient whose third reminder is due.\<close>

definition worldNoAdmins :: world where
  "worldNoAdmins = world0\<lparr>admins := []\<rparr>"

definition finalDue :: Patient where
  "finalDue = activeUser\<lparr>reminderAttempts := 2, lastReminderSent := Some 90000000\<rparr>"

text \<open>
  A patient whom an admin switched back on at time 1000, after three missed reminders and an
  admin alert, and a patient with the same flags whose account was created at that very
  time.
\<close>

definition reactivated :: Patient where
  "reactivated =
     patient0\<lparr>hasLoggedFirstDose := True, smsReminderCycle := admin_notified,
              reminderAttempts := 3, lastReminderSent := Some 500, nextReminderTime := Some 400,
              adminNotifiedDate := Some 600, previousActiveState := Some False,
              lastActivationDate := Some 1000, welcomeSmsSentAt := None, date := 0\<rparr>"

definition justCreated :: Patient where
  "justCreated =
     patient0\<lparr>welcomeSmsSent := False, previousActiveState := Some False,
              lastActivationDate := Some 1000, welcomeSmsSentAt := None, date := 1000\<rparr>"

text \<open>
  Surroundings in which the SMS provider refuses every message, a second patient, who
  registered and has not logged a dose, and the reactivated patient without a phone.
\<close>

definition worldFailing :: world where
  "worldFailing = world0\<lparr>smsResult := (\<lambda>i k. Failed)\<rparr>"

definition newcomer :: Patient where
  "newcomer = patient0\<lparr>p_id := 2\<rparr>"

definition reactivatedNoPhone :: Patient where
  "reactivatedNoPhone = reactivated\<lparr>phone := None\<rparr>"

text \<open>
  A mailer that delivers and a mailer that throws; a patient whose subscription runs out at
  time 1000.
\<close>

definition mailOk :: "nat \<Rightarrow> mail_kind \<Rightarrow> outcome" where
  "mailOk i k = Sent"

definition mailThrows :: "nat \<Rightarrow> mail_kind \<Rightarrow> outcome" where
  "mailThrows i k = Threw"

definition expiring :: Patient where
  "expiring = activeUser\<lparr>subscriptionExpiry := Value 1000\<rparr>"

section \<open>Facts about time\<close>

lemma hour_part: "(t::int) div 3600000 mod 24 * 3600000 = t mod 86400000 - t mod 3600000"
  using zmod_zmult2_eq[of 24 t 3600000] by simp

lemma minute_part: "(t::int) div 60000 mod 60 * 60000 = t mod 3600000 - t mod 60000"
  using zmod_zmult2_eq[of 60 t 60000] by simp

lemma second_part: "(t::int) div 1000 mod 60 * 1000 = t mod 60000 - t mod 1000"
  using zmod_zmult2_eq[of 60 t 1000] by simp

lemma time_split:
  "MakeDate (Day t) (MakeTime (HourFromTime t) (MinFromTime t) (SecFromTime t) (msFromTime t)) = t"
proof -
  have d: "t = (t div 86400000) * 86400000 + t mod 86400000" by simp
  show ?thesis
    unfolding MakeDate_def Day_def MakeTime_def HourFromTime_def MinFromTime_def
      SecFromTime_def msFromTime_def msPerDay_def msPerHour_def msPerMinute_def msPerSecond_def
    using d hour_part[of t] minute_part[of t] second_part[of t] by linarith
qed

lemma fixedOffset_times:
  assumes "fixedOffset tz"
  shows "\<exists>c. (\<forall>t. LocalTime tz t = t + c) \<and> (\<forall>t. UTC tz t = t - c)"
  using assms unfolding fixedOffset_def LocalTime_def UTC_def utcOffset_def localOffset_def
  by auto

lemma setHours_add:
  assumes "fixedOffset tz"
  shows "setHours tz t (getHours tz t + k) = t + k * msPerHour"
proof -
  from fixedOffset_times[OF assms]
  obtain c where lt: "\<And>t. LocalTime tz t = t + c" and ut: "\<And>t. UTC tz t = t - c"
    by blast
  let ?lt = "t + c"
  have "MakeDate (Day ?lt)
          (MakeTime (HourFromTime ?lt + k) (MinFromTime ?lt) (SecFromTime ?lt) (msFromTime ?lt))
        = MakeDate (Day ?lt)
          (MakeTime (HourFromTime ?lt) (MinFromTime ?lt) (SecFromTime ?lt) (msFromTime ?lt))
          + k * msPerHour"
    by (simp add: MakeDate_def MakeTime_def algebra_simps)
  then show ?thesis
    by (simp add: setHours_def getHours_def Let_def time_split lt ut)
qed

lemma setMinutes_add:
  assumes "fixedOffset tz"
  shows "setMinutes tz t (getMinutes tz t + k) = t + k * msPerMinute"
proof -
  from fixedOffset_times[OF assms]
  obtain c where lt: "\<And>t. LocalTime tz t = t + c" and ut: "\<And>t. UTC tz t = t - c"
    by blast
  let ?lt = "t + c"
  have "MakeDate (Day ?lt)
          (MakeTime (HourFromTime ?lt) (MinFromTime ?lt + k) (SecFromTime ?lt) (msFromTime ?lt))
        = MakeDate (Day ?lt)
          (MakeTime (HourFromTime ?lt) (MinFromTime ?lt) (SecFromTime ?lt) (msFromTime ?lt))
          + k * msPerMinute"
    by (simp add: MakeDate_def MakeTime_def algebra_simps)
  then show ?thesis
    by (simp add: setMinutes_def getMinutes_def Let_def time_split lt ut)
qed

lemma calculateNextReminderTime_eq:
  "fixedOffset tz \<Longrightarrow> calculateNextReminderTime tz t = t + 84600000"
  by (simp add: calculateNextReminderTime_def Let_def setHours_add setMinutes_add
      msPerHour_def msPerMinute_def)

lemma calculateSecondReminderTime_eq:
  "fixedOffset tz \<Longrightarrow> calculateSecondReminderTime tz t = t + 88200000"
  by (simp add: calculateSecondReminderTime_def Let_def setHours_add setMinutes_add
      msPerHour_def msPerMinute_def)

lemma calculateThirdReminderTime_eq:
  "fixedOffset tz \<Longrightarrow> calculateThirdReminderTime tz t = t + 86400000"
  by (simp add: calculateThirdReminderTime_def Let_def setHours_add msPerHour_def)

lemma fixedOffset_utcZone: "fixedOffset utcZone"
  by (simp add: fixedOffset_def utcZone_def)

lemmas utcZone_eval =
  calculateNextReminderTime_eq[OF fixedOffset_utcZone]
  calculateSecondReminderTime_eq[OF fixedOffset_utcZone]
  calculateThirdReminderTime_eq[OF fixedOffset_utcZone]

text \<open>
  On US Eastern time, a dose at 17:00 UTC on 8 March 2025 (12:00 local time): 23 hours later
  on the local clock is 11:00 on 9 March, after the clocks went forward, which is 15:00 UTC;
  with the 30 minutes, 22 hours and 30 minutes after the dose.
\<close>

lemma usEastern_before: "LocalTime usEastern 1741453200000 = 1741435200000"
  by (simp add: LocalTime_def utcOffset_def usEastern_def)

lemma usEastern_hours:
  "setHours usEastern 1741453200000 (getHours usEastern 1741453200000 + 23) = 1741532400000"
  unfolding setHours_def getHours_def Let_def usEastern_before
  by (simp add: UTC_def localOffset_def usEastern_def Day_def HourFromTime_def MinFromTime_def
      SecFromTime_def msFromTime_def MakeDate_def MakeTime_def msPerDay_def msPerHour_def
      msPerMinute_def msPerSecond_def)

lemma usEastern_after: "LocalTime usEastern 1741532400000 = 1741518000000"
  by (simp add: LocalTime_def utcOffset_def usEastern_def)

lemma usEastern_minutes:
  "setMinutes usEastern 1741532400000 (getMinutes usEastern 1741532400000 + 30) = 1741534200000"
  unfolding setMinutes_def getMinutes_def Let_def usEastern_after
  by (simp add: UTC_def localOffset_def usEastern_def Day_def HourFromTime_def MinFromTime_def
      SecFromTime_def msFromTime_def MakeDate_def MakeTime_def msPerDay_def msPerHour_def
      msPerMinute_def msPerSecond_def)

lemma calculateNextReminderTime_usEastern:
  "calculateNextReminderTime usEastern 1741453200000 = 1741534200000"
  by (simp add: calculateNextReminderTime_def usEastern_hours usEastern_minutes)

section \<open>Facts about the store\<close>

lemma findByIdAndUpdate_map:
  "distinct (map p_id ps) \<Longrightarrow>
   findByIdAndUpdate i f ps = map (\<lambda>p. if p_id p = i then f p else p) ps"
proof (induction ps)
  case Nil
  then show ?case by simp
next
  case (Cons p ps)
  show ?case
  proof (cases "p_id p = i")
    case True
    with Cons.prems have "\<forall>q\<in>set ps. p_id q \<noteq> i" by (auto simp: image_iff)
    then have "map (\<lambda>p. if p_id p = i then f p else p) ps = ps"
      by (simp add: map_idI)
    with True show ?thesis by simp
  next
    case False
    with Cons show ?thesis by simp
  qed
qed

lemma findByIdAndUpdate_id: "findByIdAndUpdate i id ps = ps"
  by (induction ps) simp_all

lemma find_absent: "\<forall>x\<in>set xs. p_id x \<noteq> i \<Longrightarrow> find (\<lambda>p. p_id p = i) xs = None"
  by (induction xs) simp_all

lemma fold_body_gen:
  fixes body :: "Patient \<Rightarrow> Patient list \<times> 'e list \<Rightarrow> Patient list \<times> 'e list"
  assumes body: "\<And>p s. body p s = (findByIdAndUpdate (p_id p) (fst (step p)) (fst s), snd s @ snd (step p))"
    and pres: "\<And>p q. p_id (fst (step p) q) = p_id q"
  shows "distinct (map p_id xs) \<Longrightarrow> distinct (map p_id db) \<Longrightarrow>
     fold body xs (db, evs) =
       (map (\<lambda>q. case find (\<lambda>p. p_id p = p_id q) xs of None \<Rightarrow> q | Some p \<Rightarrow> fst (step p) q) db,
        evs @ concat (map (\<lambda>p. snd (step p)) xs))"
proof (induction xs arbitrary: db evs)
  case Nil
  then show ?case by simp
next
  case (Cons x xs)
  let ?db = "map (\<lambda>q. if p_id q = p_id x then fst (step x) q else q) db"
  have ids: "map p_id ?db = map p_id db"
    by (induction db) (simp_all add: pres)
  have dd: "distinct (map p_id ?db)"
    unfolding ids by (rule Cons.prems(2))
  have dx: "distinct (map p_id xs)"
    using Cons.prems(1) by simp
  have absent: "find (\<lambda>p. p_id p = p_id x) xs = None"
    using Cons.prems(1) by (intro find_absent) (auto simp: image_iff)
  have step1: "body x (db, evs) = (?db, evs @ snd (step x))"
    by (simp add: body findByIdAndUpdate_map[OF Cons.prems(2)])
  have "fold body (x # xs) (db, evs) = fold body xs (?db, evs @ snd (step x))"
    by (simp add: step1)
  also have "\<dots> = (map (\<lambda>q. case find (\<lambda>p. p_id p = p_id q) xs of None \<Rightarrow> q | Some p \<Rightarrow> fst (step p) q) ?db,
        (evs @ snd (step x)) @ concat (map (\<lambda>p. snd (step p)) xs))"
    by (rule Cons.IH[OF dx dd])
  also have "map (\<lambda>q. case find (\<lambda>p. p_id p = p_id q) xs of None \<Rightarrow> q | Some p \<Rightarrow> fst (step p) q) ?db
     = map (\<lambda>q. case find (\<lambda>p. p_id p = p_id q) (x # xs) of None \<Rightarrow> q | Some p \<Rightarrow> fst (step p) q) db"
    by (simp add: pres absent)
  finally show ?case by simp
qed

lemma find_filter_distinct:
  "distinct (map p_id ps) \<Longrightarrow> q \<in> set ps \<Longrightarrow>
   find (\<lambda>p. p_id p = p_id q) (filter Q ps) = (if Q q then Some q else None)"
proof (induction ps)
  case Nil
  then show ?case by simp
next
  case (Cons a ps)
  show ?case
  proof (cases "a = q")
    case True
    with Cons.prems have "\<forall>x\<in>set (filter Q ps). p_id x \<noteq> p_id q" by (auto simp: image_iff)
    then have "find (\<lambda>p. p_id p = p_id q) (filter Q ps) = None" by (rule find_absent)
    with True show ?thesis by simp
  next
    case False
    with Cons.prems have "q \<in> set ps" "p_id a \<noteq> p_id q" by (auto simp: image_iff)
    with Cons show ?thesis by simp
  qed
qed

lemma fold_body:
  fixes body :: "Patient \<Rightarrow> Patient list \<times> 'e list \<Rightarrow> Patient list \<times> 'e list"
  assumes body: "\<And>p s. body p s = (findByIdAndUpdate (p_id p) (fst (step p)) (fst s), snd s @ snd (step p))"
    and pres: "\<And>p q. p_id (fst (step p) q) = p_id q"
    and dist: "distinct (map p_id ps)"
  shows "fold body (filter Q ps) (ps, evs) =
       (map (\<lambda>q. if Q q then fst (step q) q else q) ps,
        evs @ concat (map (\<lambda>p. snd (step p)) (filter Q ps)))"
proof -
  have d: "distinct (map p_id (filter Q ps))"
    using dist by (simp add: distinct_map_filter)
  have "map (\<lambda>q. case find (\<lambda>p. p_id p = p_id q) (filter Q ps) of None \<Rightarrow> q | Some p \<Rightarrow> fst (step p) q) ps
      = map (\<lambda>q. if Q q then fst (step q) q else q) ps"
    by (rule map_cong) (simp_all add: find_filter_distinct[OF dist])
  then show ?thesis
    using fold_body_gen[of body step "filter Q ps" ps evs, OF body pres d dist] by simp
qed

lemma events_of_patient:
  assumes own: "\<And>p e. e \<in> set (ev p) \<Longrightarrow> pat e = p_id p"
  shows "distinct (map p_id ps) \<Longrightarrow> p \<in> set ps \<Longrightarrow>
    filter (\<lambda>e. pat e = p_id p) (concat (map ev (filter Q ps))) = (if Q p then ev p else [])"
proof (induction ps)
  case Nil
  then show ?case by simp
next
  case (Cons a ps)
  have none: "\<And>q. p_id q \<noteq> p_id p \<Longrightarrow> filter (\<lambda>e. pat e = p_id p) (ev q) = []"
    using own by (auto simp: filter_empty_conv)
  have all: "filter (\<lambda>e. pat e = p_id p) (ev p) = ev p"
    using own by (auto simp: filter_id_conv)
  show ?case
  proof (cases "a = p")
    case True
    with Cons.prems have "\<forall>x\<in>set (filter Q ps). p_id x \<noteq> p_id p" by (auto simp: image_iff)
    then have "filter (\<lambda>e. pat e = p_id p) (concat (map ev (filter Q ps))) = []"
      using none by (auto simp: filter_empty_conv)
    with True all show ?thesis by simp
  next
    case False
    with Cons.prems have "p \<in> set ps" "p_id a \<noteq> p_id p" by (auto simp: image_iff)
    with Cons none show ?thesis by simp
  qed
qed

section \<open>Facts about the loops\<close>

lemma sendThenUpdate_step:
  "sendThenUpdate w p k upd s =
     (findByIdAndUpdate (p_id p) (fst (sendStep w p k upd)) (fst s), snd s @ snd (sendStep w p k upd))"
  by (cases "smsResult w (p_id p) k") (simp_all add: sendThenUpdate_def sendStep_def findByIdAndUpdate_id)

lemma no_step: "s = (findByIdAndUpdate i (fst (id, [])) (fst s), snd s @ snd (id, []))"
  by (simp add: findByIdAndUpdate_id)

lemma reactivationBody_step:
  "reactivationBody w now p s =
     (findByIdAndUpdate (p_id p) (fst (reactivationStep w now p)) (fst s),
      snd s @ snd (reactivationStep w now p))"
  by (cases "smsResult w (p_id p) SmartReactivation")
     (simp_all add: reactivationBody_def reactivationStep_def handleReactivation_def findByIdAndUpdate_id)

lemma sendAdminNotification_step:
  "sendAdminNotification w now p s =
     (findByIdAndUpdate (p_id p) (fst (adminStep w now p)) (fst s),
      snd s @ snd (adminStep w now p))"
  by (cases "adminMailResult w (p_id p)")
     (simp_all add: sendAdminNotification_def adminStep_def Let_def findByIdAndUpdate_id)

lemma newUserBody_step:
  "newUserBody w now ds p s =
     (findByIdAndUpdate (p_id p) (fst (newUserStep w now ds p)) (fst s),
      snd s @ snd (newUserStep w now ds p))"
proof (cases "welcomeSmsSentAt p")
  case None
  then show ?thesis
    by (simp add: newUserBody_def newUserStep_def findByIdAndUpdate_id)
next
  case (Some t)
  then show ?thesis
    by (simp add: newUserBody_def newUserStep_def Let_def findByIdAndUpdate_id sendThenUpdate_step)
qed

lemma activeUserBody_step:
  "activeUserBody tz w now ds p s =
     (findByIdAndUpdate (p_id p) (fst (activeUserStep tz w now ds p)) (fst s),
      snd s @ snd (activeUserStep tz w now ds p))"
proof (cases "lastDoseTime p")
  case None
  then show ?thesis
    by (simp add: activeUserBody_def activeUserStep_def Let_def findByIdAndUpdate_id)
next
  case (Some t)
  then show ?thesis
    by (simp add: activeUserBody_def activeUserStep_def Let_def findByIdAndUpdate_id
        sendThenUpdate_step)
qed

lemma sendStep_id: "p_id (fst (sendStep w p k upd) q) = p_id q" if "\<And>q. p_id (upd q) = p_id q"
  using that by (simp add: sendStep_def)

lemma reactivationStep_id: "p_id (fst (reactivationStep w now p) q) = p_id q"
  by (simp add: reactivationStep_def reactivationReset_def)

lemma newUserStep_id: "p_id (fst (newUserStep w now ds p) q) = p_id q"
  by (simp add: newUserStep_def sendStep_def split: option.split)

lemma activeUserStep_id: "p_id (fst (activeUserStep tz w now ds p) q) = p_id q"
  by (simp add: activeUserStep_def Let_def sendStep_def split: option.split)

lemma adminStep_id: "p_id (fst (adminStep w now p) q) = p_id q"
  by (simp add: adminStep_def adminNotified_def Let_def)

lemma sendStep_own: "e \<in> set (snd (sendStep w p k upd)) \<Longrightarrow> event_patient e = p_id p"
  by (auto simp: sendStep_def)

lemma reactivationStep_own: "e \<in> set (snd (reactivationStep w now p)) \<Longrightarrow> event_patient e = p_id p"
  by (auto simp: reactivationStep_def split: if_splits)

lemma newUserStep_own: "e \<in> set (snd (newUserStep w now ds p)) \<Longrightarrow> event_patient e = p_id p"
  by (auto simp: newUserStep_def sendStep_def split: if_splits option.splits)

lemma activeUserStep_own: "e \<in> set (snd (activeUserStep tz w now ds p)) \<Longrightarrow> event_patient e = p_id p"
  by (auto simp: activeUserStep_def Let_def sendStep_def split: if_splits option.splits)

lemma adminStep_own: "e \<in> set (snd (adminStep w now p)) \<Longrightarrow> event_patient e = p_id p"
  by (auto simp: adminStep_def Let_def split: if_splits)

lemma pass_id:
  assumes "\<And>p q. p_id (fst (step p) q) = p_id q"
  shows "p_id (fst (pass query step p)) = p_id p"
  using assms by (simp add: pass_def)

lemma stage:
  fixes body :: "Patient \<Rightarrow> run \<Rightarrow> run"
  assumes body: "\<And>p s. body p s = (findByIdAndUpdate (p_id p) (fst (step p)) (fst s), snd s @ snd (step p))"
    and pres: "\<And>p q. p_id (fst (step p) q) = p_id q"
    and own: "\<And>p e. e \<in> set (snd (step p)) \<Longrightarrow> event_patient e = p_id p"
    and dist: "distinct (map p_id ps)"
  shows "\<exists>evs'. fold body (filter query ps) (ps, evs) = (map (\<lambda>p. fst (pass query step p)) ps, evs @ evs') \<and>
           (\<forall>p\<in>set ps. eventsFor (p_id p) evs' = snd (pass query step p))"
proof -
  let ?evs = "concat (map (\<lambda>p. snd (step p)) (filter query ps))"
  have "fold body (filter query ps) (ps, evs) = (map (\<lambda>p. fst (pass query step p)) ps, evs @ ?evs)"
    using fold_body[of body step ps query evs, OF body pres dist]
    by (simp add: pass_def cong: map_cong)
  moreover have "\<forall>p\<in>set ps. eventsFor (p_id p) ?evs = snd (pass query step p)"
    unfolding eventsFor_def
    using events_of_patient[of "\<lambda>p. snd (step p)" event_patient ps _ query, OF own dist]
    by (simp add: pass_def)
  ultimately show ?thesis by blast
qed


lemma reactivation_stage:
  assumes "distinct (map p_id ps)"
  shows "\<exists>evs'. fold (reactivationBody w now) (filter (reactivationQuery now) ps) (ps, evs) =
           (map (\<lambda>p. fst (pass (reactivationQuery now) (reactivationStep w now) p)) ps, evs @ evs') \<and>
           (\<forall>p\<in>set ps. eventsFor (p_id p) evs' =
              snd (pass (reactivationQuery now) (reactivationStep w now) p))"
  by (rule stage[where step="reactivationStep w now"])
     (simp_all add: reactivationBody_step reactivationStep_id reactivationStep_own assms)

lemma newUser_stage:
  assumes "distinct (map p_id ps)"
  shows "\<exists>evs'. fold (newUserBody w now ds) (filter newUserQuery ps) (ps, evs) =
           (map (\<lambda>p. fst (pass newUserQuery (newUserStep w now ds) p)) ps, evs @ evs') \<and>
           (\<forall>p\<in>set ps. eventsFor (p_id p) evs' = snd (pass newUserQuery (newUserStep w now ds) p))"
  by (rule stage[where step="newUserStep w now ds"])
     (simp_all add: newUserBody_step newUserStep_id newUserStep_own assms)

lemma activeUser_stage:
  assumes "distinct (map p_id ps)"
  shows "\<exists>evs'. fold (activeUserBody tz w now ds) (filter activeUserQuery ps) (ps, evs) =
           (map (\<lambda>p. fst (pass activeUserQuery (activeUserStep tz w now ds) p)) ps, evs @ evs') \<and>
           (\<forall>p\<in>set ps. eventsFor (p_id p) evs' =
              snd (pass activeUserQuery (activeUserStep tz w now ds) p))"
  by (rule stage[where step="activeUserStep tz w now ds"])
     (simp_all add: activeUserBody_step activeUserStep_id activeUserStep_own assms)

lemma admin_stage:
  assumes "distinct (map p_id ps)"
  shows "\<exists>evs'. fold (sendAdminNotification w now) (filter inactiveUserQuery ps) (ps, evs) =
           (map (\<lambda>p. fst (pass inactiveUserQuery (adminStep w now) p)) ps, evs @ evs') \<and>
           (\<forall>p\<in>set ps. eventsFor (p_id p) evs' = snd (pass inactiveUserQuery (adminStep w now) p))"
  by (rule stage[where step="adminStep w now"])
     (simp_all add: sendAdminNotification_step adminStep_id adminStep_own assms)

lemma eventsFor_append: "eventsFor i (xs @ ys) = eventsFor i xs @ eventsFor i ys"
  by (simp add: eventsFor_def)

lemma pass_ids:
  assumes "\<And>p q. p_id (fst (step p) q) = p_id q"
  shows "map p_id (map (\<lambda>p. fst (pass query step p)) ps) = map p_id ps"
  using assms by (induction ps) (simp_all add: pass_def)

lemma reminderTick_run:
  assumes dist: "distinct (map p_id (patients st))"
  shows "patients (fst (reminderTick tz w now st)) =
           map (\<lambda>p. fst (patientTick tz w now (doses st) p)) (patients st) \<and>
         doses (fst (reminderTick tz w now st)) = doses st \<and>
         (\<forall>p\<in>set (patients st).
            eventsFor (p_id p) (snd (reminderTick tz w now st)) = snd (patientTick tz w now (doses st) p))"
proof -
  let ?ps0 = "patients st"
  let ?f1 = "\<lambda>p. fst (pass (reactivationQuery now) (reactivationStep w now) p)"
  let ?f2 = "\<lambda>p. fst (pass newUserQuery (newUserStep w now (doses st)) p)"
  let ?f3 = "\<lambda>p. fst (pass activeUserQuery (activeUserStep tz w now (doses st)) p)"
  let ?f4 = "\<lambda>p. fst (pass inactiveUserQuery (adminStep w now) p)"
  let ?ps1 = "map ?f1 ?ps0"
  let ?ps2 = "map ?f2 ?ps1"
  let ?ps3 = "map ?f3 ?ps2"
  let ?s0 = "(?ps0, [] :: event list)"
  obtain e1 where s1: "fold (reactivationBody w now) (filter (reactivationQuery now) ?ps0) ?s0
        = (?ps1, [] @ e1)"
    and ev1: "\<forall>p\<in>set ?ps0. eventsFor (p_id p) e1 = snd (pass (reactivationQuery now) (reactivationStep w now) p)"
    using reactivation_stage[OF dist, of w now "[]"]
    by blast
  have d1: "distinct (map p_id ?ps1)"
    using dist by (simp only: pass_ids[OF reactivationStep_id])
  let ?s1 = "(?ps1, [] @ e1)"
  obtain e2 where s2: "fold (newUserBody w now (doses st)) (filter newUserQuery ?ps1) ?s1
        = (?ps2, ([] @ e1) @ e2)"
    and ev2: "\<forall>p\<in>set ?ps1. eventsFor (p_id p) e2 = snd (pass newUserQuery (newUserStep w now (doses st)) p)"
    using newUser_stage[OF d1, of w now "doses st" "[] @ e1"]
    by blast
  have d2: "distinct (map p_id ?ps2)"
    using d1 by (simp only: pass_ids[OF newUserStep_id])
  let ?s2 = "(?ps2, ([] @ e1) @ e2)"
  obtain e3 where s3: "fold (activeUserBody tz w now (doses st)) (filter activeUserQuery ?ps2) ?s2
        = (?ps3, (([] @ e1) @ e2) @ e3)"
    and ev3: "\<forall>p\<in>set ?ps2. eventsFor (p_id p) e3 = snd (pass activeUserQuery (activeUserStep tz w now (doses st)) p)"
    using activeUser_stage[OF d2, of tz w now "doses st" "([] @ e1) @ e2"]
    by blast
  have d3: "distinct (map p_id ?ps3)"
    using d2 by (simp only: pass_ids[OF activeUserStep_id])
  let ?s3 = "(?ps3, (([] @ e1) @ e2) @ e3)"
  obtain e4 where s4: "fold (sendAdminNotification w now) (filter inactiveUserQuery ?ps3) ?s3
        = (map ?f4 ?ps3, ((([] @ e1) @ e2) @ e3) @ e4)"
    and ev4: "\<forall>p\<in>set ?ps3. eventsFor (p_id p) e4 = snd (pass inactiveUserQuery (adminStep w now) p)"
    using admin_stage[OF d3, of w now "(([] @ e1) @ e2) @ e3"]
    by blast
  have tick: "reminderTick tz w now st = (st\<lparr>patients := map ?f4 ?ps3\<rparr>, ((([] @ e1) @ e2) @ e3) @ e4)"
    unfolding reminderTick_def Let_def fst_conv snd_conv s1 s2 s3 s4 by simp
  have pats: "patients (fst (reminderTick tz w now st)) =
           map (\<lambda>p. fst (patientTick tz w now (doses st) p)) (patients st)"
    by (simp add: tick patientTick_def Let_def comp_def)
  have evs: "eventsFor (p_id p) (snd (reminderTick tz w now st)) = snd (patientTick tz w now (doses st) p)"
    if p: "p \<in> set (patients st)" for p
  proof -
    have i1: "p_id (?f1 p) = p_id p" by (rule pass_id[OF reactivationStep_id])
    have i2: "p_id (?f2 (?f1 p)) = p_id p" using i1 by (simp add: pass_id[OF newUserStep_id])
    have i3: "p_id (?f3 (?f2 (?f1 p))) = p_id p" using i2 by (simp add: pass_id[OF activeUserStep_id])
    have m1: "?f1 p \<in> set ?ps1" using p by simp
    have m2: "?f2 (?f1 p) \<in> set ?ps2" using p by simp
    have m3: "?f3 (?f2 (?f1 p)) \<in> set ?ps3" using p by simp
    have a1: "eventsFor (p_id p) e1 = snd (pass (reactivationQuery now) (reactivationStep w now) p)"
      using ev1 p by blast
    have a2: "eventsFor (p_id p) e2 = snd (pass newUserQuery (newUserStep w now (doses st)) (?f1 p))"
      using ev2 m1 i1 by metis
    have a3: "eventsFor (p_id p) e3 = snd (pass activeUserQuery (activeUserStep tz w now (doses st)) (?f2 (?f1 p)))"
      using ev3 m2 i2 by metis
    have a4: "eventsFor (p_id p) e4 = snd (pass inactiveUserQuery (adminStep w now) (?f3 (?f2 (?f1 p))))"
      using ev4 m3 i3 by metis
    show ?thesis
      by (simp add: tick eventsFor_append a1 a2 a3 a4 patientTick_def Let_def)
  qed
  show ?thesis using pats evs by (simp add: tick)
qed

section \<open>Facts about \<^verbatim>\<open>logDose\<close> and the hook\<close>

lemma findById_member:
  "distinct (map p_id ps) \<Longrightarrow> p \<in> set ps \<Longrightarrow> findById (p_id p) ps = Some p"
  unfolding findById_def
proof (induction ps)
  case Nil
  then show ?case by simp
next
  case (Cons q ps)
  then show ?case by (cases "q = p") (auto simp: image_iff)
qed

lemma findById_map:
  assumes "\<And>q. p_id (F q) = p_id q" and "distinct (map p_id ps)" and "p \<in> set ps"
  shows "findById (p_id p) (map F ps) = Some (F p)"
proof -
  have ids: "map p_id (map F ps) = map p_id ps" using assms(1) by (induction ps) simp_all
  have "distinct (map p_id (map F ps))" unfolding ids by (rule assms(2))
  moreover have "F p \<in> set (map F ps)" using assms(3) by simp
  ultimately have "findById (p_id (F p)) (map F ps) = Some (F p)" by (rule findById_member)
  then show ?thesis by (simp add: assms(1))
qed

lemma updatePatientReminderData_patient:
  assumes "distinct (map p_id (patients st))" and "p \<in> set (patients st)"
  shows "findById (p_id p) (patients (updatePatientReminderData tz (p_id p) T st)) =
           Some (doseReset tz T p)"
proof -
  have "findById (p_id p) (patients st) = Some p"
    using assms by (rule findById_member)
  then have "patients (updatePatientReminderData tz (p_id p) T st) =
      map (\<lambda>q. if p_id q = p_id p then doseReset tz T q else q) (patients st)"
    by (simp add: updatePatientReminderData_def findByIdAndUpdate_map[OF assms(1)])
  moreover have "findById (p_id p) (map (\<lambda>q. if p_id q = p_id p then doseReset tz T q else q) (patients st))
      = Some (if p_id p = p_id p then doseReset tz T p else p)"
    by (rule findById_map) (simp_all add: assms doseReset_def)
  ultimately show ?thesis by simp
qed

lemma latest_Some:
  "latest ds = Some b \<Longrightarrow> b \<in> set ds \<and> (\<forall>d\<in>set ds. timestamp d \<le> timestamp b)"
proof (induction ds arbitrary: b)
  case Nil
  then show ?case by simp
next
  case (Cons a ds)
  show ?case
  proof (cases "latest ds")
    case None
    then have "ds = []" by (cases ds) (simp_all split: option.splits if_splits)
    with Cons.prems show ?thesis by simp
  next
    case (Some e)
    with Cons.IH have e: "e \<in> set ds" "\<forall>d\<in>set ds. timestamp d \<le> timestamp e" by simp_all
    show ?thesis
    proof (cases "timestamp a \<le> timestamp e")
      case True
      with Some Cons.prems have "b = e" by simp
      with e True show ?thesis by simp
    next
      case False
      with Some Cons.prems have "b = a" by simp
      with e False show ?thesis by fastforce
    qed
  qed
qed

lemma latest_None: "latest ds = None \<longleftrightarrow> ds = []"
  by (cases ds) (simp_all split: option.splits)

lemma lastBasalDose_mostRecent:
  "lastBasalDose i ds = Some b \<Longrightarrow> mostRecentBasal ds i b"
  unfolding lastBasalDose_def mostRecentBasal_def
  by (drule latest_Some) auto

lemma lastBasalDose_None:
  "lastBasalDose i ds = None \<longleftrightarrow> (\<forall>d\<in>set ds. \<not> (patient d = i \<and> dose_type d = Basal))"
  unfolding lastBasalDose_def latest_None by (auto simp: filter_empty_conv)

lemma mostRecentBasal_time:
  assumes "mostRecentBasal ds i b"
  shows "\<exists>b'. lastBasalDose i ds = Some b' \<and> timestamp b' = timestamp b"
proof (cases "lastBasalDose i ds")
  case None
  with assms show ?thesis by (auto simp: lastBasalDose_None mostRecentBasal_def)
next
  case (Some b')
  then have "mostRecentBasal ds i b'" by (rule lastBasalDose_mostRecent)
  with assms have "timestamp b' \<le> timestamp b" "timestamp b \<le> timestamp b'"
    unfolding mostRecentBasal_def by blast+
  then have "timestamp b' = timestamp b" by simp
  with Some show ?thesis by simp
qed


lemma logDose_cases:
  "(\<exists>b. lastBasalDose i (doses st) = Some b \<and> T - timestamp b < 20 * msPerHour \<and>
        logDose tz i ty T st =
          (Restricted (timestamp b) (timestamp b + 20 * 60 * 60 * 1000), st)) \<or>
   (\<not> (\<exists>b. lastBasalDose i (doses st) = Some b \<and> T - timestamp b < 20 * msPerHour) \<and>
    castType ty = None \<and> logDose tz i ty T st = (ServerError, st)) \<or>
   (\<not> (\<exists>b. lastBasalDose i (doses st) = Some b \<and> T - timestamp b < 20 * msPerHour) \<and>
    (\<exists>tp. castType ty = Some tp \<and>
       logDose tz i ty T st =
         (Created \<lparr>patient = i, dose_type = tp, timestamp = T\<rparr>,
          updatePatientReminderData tz i T
            (st\<lparr>doses := doses st @ [\<lparr>patient = i, dose_type = tp, timestamp = T\<rparr>]\<rparr>))))"
  by (cases "lastBasalDose i (doses st)"; cases "castType ty")
     (simp_all add: logDose_def Let_def)

lemma logDose_accepted:
  assumes "distinct (map p_id (patients st))" and "p \<in> set (patients st)"
    and "status (fst (logDose tz (p_id p) ty T st)) = 201"
  shows "findById (p_id p) (patients (snd (logDose tz (p_id p) ty T st))) =
           Some (doseReset tz T p)"
proof -
  from logDose_cases[of "p_id p" st T tz ty] assms(3)
  obtain tp where "logDose tz (p_id p) ty T st =
         (Created \<lparr>patient = p_id p, dose_type = tp, timestamp = T\<rparr>,
          updatePatientReminderData tz (p_id p) T
            (st\<lparr>doses := doses st @ [\<lparr>patient = p_id p, dose_type = tp, timestamp = T\<rparr>]\<rparr>))"
    by auto
  moreover have "findById (p_id p) (patients (updatePatientReminderData tz (p_id p) T
            (st\<lparr>doses := doses st @ [\<lparr>patient = p_id p, dose_type = tp, timestamp = T\<rparr>]\<rparr>))) =
      Some (doseReset tz T p)"
    by (rule updatePatientReminderData_patient) (simp_all add: assms)
  ultimately show ?thesis by simp
qed

text \<open>
  On a host whose zone has one offset, the hook writes the time 23 hours and 30 minutes after
  the dose, together with the other five fields.
\<close>

lemma dose_hook_fixed_offset:
  assumes "distinct (map p_id (patients st))" and "p \<in> set (patients st)"
    and "status (fst (logDose tz (p_id p) ty T st)) = 201" and "fixedOffset tz"
  shows "findById (p_id p) (patients (snd (logDose tz (p_id p) ty T st))) =
           Some (p\<lparr>lastDoseTime := Some T,
                   nextReminderTime := Some (T + 23 * msPerHour + 30 * msPerMinute),
                   reminderAttempts := 0,
                   lastReminderSent := None,
                   hasLoggedFirstDose := True,
                   smsReminderCycle := active_user\<rparr>)"
  by (simp add: logDose_accepted[OF assms(1,2,3)] doseReset_def
      calculateNextReminderTime_eq[OF assms(4)] msPerHour_def msPerMinute_def)

section \<open>Facts about a tick and one patient\<close>

lemma patientTick_id: "p_id (fst (patientTick tz w now ds p)) = p_id p"
  by (simp add: patientTick_def Let_def pass_id[OF reactivationStep_id] pass_id[OF newUserStep_id]
      pass_id[OF activeUserStep_id] pass_id[OF adminStep_id])

lemma reminderTick_patient:
  assumes "distinct (map p_id (patients st))" and "p \<in> set (patients st)"
  shows "findById (p_id p) (patients (fst (reminderTick tz w now st))) =
           Some (fst (patientTick tz w now (doses st) p))"
    and "eventsFor (p_id p) (snd (reminderTick tz w now st)) = snd (patientTick tz w now (doses st) p)"
proof -
  note run = reminderTick_run[OF assms(1), of tz w now]
  show "findById (p_id p) (patients (fst (reminderTick tz w now st))) =
           Some (fst (patientTick tz w now (doses st) p))"
    using run findById_map[of "\<lambda>p. fst (patientTick tz w now (doses st) p)", OF patientTick_id assms]
    by simp
  show "eventsFor (p_id p) (snd (reminderTick tz w now st)) = snd (patientTick tz w now (doses st) p)"
    using run assms(2) by blast
qed

lemma reactivation_pass_not_due:
  "\<not> reactivationDue now p \<Longrightarrow> pass (reactivationQuery now) (reactivationStep w now) p = (p, [])"
  by (auto simp: pass_def reactivationDue_def reactivationStep_def)

lemma newUser_pass_other: "smsReminderCycle p \<noteq> new_user \<Longrightarrow> pass newUserQuery step p = (p, [])"
  by (simp add: pass_def newUserQuery_def)

lemma activeUser_pass_other: "smsReminderCycle p \<noteq> active_user \<Longrightarrow> pass activeUserQuery step p = (p, [])"
  by (simp add: pass_def activeUserQuery_def)

lemma admin_pass_other: "smsReminderCycle p \<noteq> inactive_user \<Longrightarrow> pass inactiveUserQuery step p = (p, [])"
  by (simp add: pass_def inactiveUserQuery_def)

text \<open>The equations that run a tick on a given store.\<close>

lemmas tick_eval =
  reminderTick_def Let_def reactivationQuery_def newUserQuery_def activeUserQuery_def
  inactiveUserQuery_def reactivationBody_def notYetHandled_def handleReactivation_def
  newUserBody_def activeUserBody_def sendThenUpdate_def sendAdminNotification_def
  reactivationReset_def adminNotified_def hasPhone_def doseSince_def
  utcZone_eval eventsFor_def findById_def

lemma reactivation_pass_notified:
  "adminNotifiedDate (fst (pass (reactivationQuery now) (reactivationStep w now) p)) = adminNotifiedDate p"
  by (simp add: pass_def reactivationStep_def reactivationReset_def)

lemma newUser_pass_notified:
  "adminNotifiedDate (fst (pass newUserQuery (newUserStep w now ds) p)) = adminNotifiedDate p"
  by (simp add: pass_def newUserStep_def sendStep_def split: option.split)

lemma activeUser_pass_notified:
  "adminNotifiedDate (fst (pass activeUserQuery (activeUserStep tz w now ds) p)) = adminNotifiedDate p"
  by (simp add: pass_def activeUserStep_def Let_def sendStep_def split: option.split)

lemma admin_pass_notified:
  "adminNotifiedDate p \<noteq> None \<Longrightarrow> pass inactiveUserQuery (adminStep w now) p = (p, [])"
  by (auto simp: pass_def inactiveUserQuery_def)

lemma reactivation_pass_sms:
  "e \<in> set (snd (pass (reactivationQuery now) (reactivationStep w now) p)) \<Longrightarrow> \<exists>i k r. e = Sms i k r"
  by (simp add: pass_def reactivationStep_def split: if_splits)

lemma newUser_pass_sms:
  "e \<in> set (snd (pass newUserQuery (newUserStep w now ds) p)) \<Longrightarrow> \<exists>i k r. e = Sms i k r"
  by (auto simp: pass_def newUserStep_def sendStep_def split: if_splits option.splits)

lemma activeUser_pass_sms:
  "e \<in> set (snd (pass activeUserQuery (activeUserStep tz w now ds) p)) \<Longrightarrow> \<exists>i k r. e = Sms i k r"
  by (auto simp: pass_def activeUserStep_def Let_def sendStep_def split: if_splits option.splits)

lemma patientTick_notified:
  assumes "adminNotifiedDate p \<noteq> None"
  shows "adminNotifiedDate (fst (patientTick tz w now ds p)) = adminNotifiedDate p"
    and "AdminAlert i emails r \<notin> set (snd (patientTick tz w now ds p))"
proof -
  let ?r1 = "pass (reactivationQuery now) (reactivationStep w now) p"
  let ?r2 = "pass newUserQuery (newUserStep w now ds) (fst ?r1)"
  let ?r3 = "pass activeUserQuery (activeUserStep tz w now ds) (fst ?r2)"
  have n3: "adminNotifiedDate (fst ?r3) = adminNotifiedDate p"
    by (simp add: reactivation_pass_notified newUser_pass_notified activeUser_pass_notified)
  then have r4: "pass inactiveUserQuery (adminStep w now) (fst ?r3) = (fst ?r3, [])"
    using assms by (simp add: admin_pass_notified)
  show "adminNotifiedDate (fst (patientTick tz w now ds p)) = adminNotifiedDate p"
    by (simp add: patientTick_def Let_def r4 n3)
  show "AdminAlert i emails r \<notin> set (snd (patientTick tz w now ds p))"
    using reactivation_pass_sms[of "AdminAlert i emails r" now w p]
      newUser_pass_sms[of "AdminAlert i emails r" w now ds "fst ?r1"]
      activeUser_pass_sms[of "AdminAlert i emails r" tz w now ds "fst ?r2"]
    by (auto simp: patientTick_def Let_def r4)
qed

lemma admin_pass_alert:
  assumes "AdminAlert i emails r \<in> set (snd (pass inactiveUserQuery (adminStep w now) q))"
    and "r \<noteq> Threw"
  shows "fst (pass inactiveUserQuery (adminStep w now) q) = adminNotified now q"
  using assms by (simp add: pass_def adminStep_def Let_def split: if_splits)

lemma patientTick_alert:
  assumes "AdminAlert i emails r \<in> set (snd (patientTick tz w now ds p))" and "r \<noteq> Threw"
  shows "adminNotifiedDate (fst (patientTick tz w now ds p)) = Some now \<and>
         smsReminderCycle (fst (patientTick tz w now ds p)) = admin_notified"
proof -
  let ?r1 = "pass (reactivationQuery now) (reactivationStep w now) p"
  let ?r2 = "pass newUserQuery (newUserStep w now ds) (fst ?r1)"
  let ?r3 = "pass activeUserQuery (activeUserStep tz w now ds) (fst ?r2)"
  let ?r4 = "pass inactiveUserQuery (adminStep w now) (fst ?r3)"
  have "AdminAlert i emails r \<in> set (snd ?r4)"
    using assms(1) reactivation_pass_sms[of "AdminAlert i emails r" now w p]
      newUser_pass_sms[of "AdminAlert i emails r" w now ds "fst ?r1"]
      activeUser_pass_sms[of "AdminAlert i emails r" tz w now ds "fst ?r2"]
    by (auto simp: patientTick_def Let_def)
  then have "fst ?r4 = adminNotified now (fst ?r3)"
    using assms(2) by (rule admin_pass_alert)
  then show ?thesis
    by (simp add: patientTick_def Let_def adminNotified_def)
qed

lemma reminderTick_distinct:
  assumes "distinct (map p_id (patients st))"
  shows "distinct (map p_id (patients (fst (reminderTick tz w now st))))"
proof -
  have "map p_id (patients (fst (reminderTick tz w now st))) = map p_id (patients st)"
    using reminderTick_run[OF assms, of tz w now] by (simp add: patientTick_id comp_def)
  then show ?thesis using assms by simp
qed

lemma reminderTick_member:
  assumes "distinct (map p_id (patients st))" and "p \<in> set (patients st)"
  shows "fst (patientTick tz w now (doses st) p) \<in> set (patients (fst (reminderTick tz w now st)))"
  using reminderTick_run[OF assms(1), of tz w now] assms(2) by simp

lemma eventsFor_member: "e \<in> set evs \<Longrightarrow> e \<in> set (eventsFor (event_patient e) evs)"
  by (simp add: eventsFor_def)

lemma runTicks_no_alert:
  "distinct (map p_id (patients st)) \<Longrightarrow> p \<in> set (patients st) \<Longrightarrow>
   adminNotifiedDate p \<noteq> None \<Longrightarrow>
   AdminAlert (p_id p) emails r \<notin> set (snd (runTicks tz ticks st))"
proof (induction ticks arbitrary: st p)
  case Nil
  then show ?case by simp
next
  case (Cons wn ticks)
  let ?w = "fst wn" and ?now = "snd wn"
  let ?p = "fst (patientTick tz ?w ?now (doses st) p)"
  have first: "AdminAlert (p_id p) emails r \<notin> set (snd (reminderTick tz ?w ?now st))"
  proof
    assume "AdminAlert (p_id p) emails r \<in> set (snd (reminderTick tz ?w ?now st))"
    from eventsFor_member[OF this]
    have "AdminAlert (p_id p) emails r \<in> set (snd (patientTick tz ?w ?now (doses st) p))"
      by (simp add: reminderTick_patient(2)[OF Cons.prems(1,2)])
    with patientTick_notified(2)[OF Cons.prems(3)] show False by blast
  qed
  have rest: "AdminAlert (p_id ?p) emails r \<notin> set (snd (runTicks tz ticks (fst (reminderTick tz ?w ?now st))))"
    by (rule Cons.IH)
       (simp_all add: reminderTick_distinct[OF Cons.prems(1)]
          reminderTick_member[OF Cons.prems(1,2)] patientTick_notified(1)[OF Cons.prems(3)]
          Cons.prems(3))
  show ?case using first rest by (simp add: Let_def patientTick_id)
qed

lemma reactivation_pass_no_reminder:
  "filter isReminder (snd (pass (reactivationQuery now) (reactivationStep w now) p)) = []"
  by (simp add: pass_def reactivationStep_def)

lemma admin_pass_no_reminder:
  "filter isReminder (snd (pass inactiveUserQuery (adminStep w now) p)) = []"
  by (simp add: pass_def adminStep_def Let_def)

lemma newUser_pass_one: "length (snd (pass newUserQuery (newUserStep w now ds) p)) \<le> 1"
  by (simp add: pass_def newUserStep_def sendStep_def split: option.split)

lemma activeUser_pass_one: "length (snd (pass activeUserQuery (activeUserStep tz w now ds) p)) \<le> 1"
  by (simp add: pass_def activeUserStep_def Let_def sendStep_def split: option.split)

lemma newUser_pass_leaves:
  "snd (pass newUserQuery (newUserStep w now ds) p) \<noteq> [] \<Longrightarrow>
   smsReminderCycle (fst (pass newUserQuery (newUserStep w now ds) p)) \<noteq> active_user"
  by (simp add: pass_def newUserStep_def sendStep_def newUserQuery_def
      split: option.splits if_splits)

lemma patientTick_reactivated:
  assumes "reactivationDue now p" and "smsResult w (p_id p) SmartReactivation \<noteq> Threw"
  shows "patientTick tz w now ds p =
           (reactivationReset now p,
            [Sms (p_id p) SmartReactivation (smsResult w (p_id p) SmartReactivation)])"
proof -
  let ?q = "reactivationReset now p"
  have r1: "pass (reactivationQuery now) (reactivationStep w now) p =
      (?q, [Sms (p_id p) SmartReactivation (smsResult w (p_id p) SmartReactivation)])"
    using assms by (simp add: pass_def reactivationStep_def reactivationDue_def)
  have w: "welcomeSmsSentAt ?q = Some now" and c: "smsReminderCycle ?q = new_user"
    by (simp_all add: reactivationReset_def)
  have r2: "pass newUserQuery (newUserStep w now ds) ?q = (?q, [])"
    by (simp add: pass_def newUserStep_def w)
  have r3: "pass activeUserQuery (activeUserStep tz w now ds) ?q = (?q, [])"
    by (simp add: activeUser_pass_other c)
  have r4: "pass inactiveUserQuery (adminStep w now) ?q = (?q, [])"
    by (simp add: admin_pass_other c)
  show ?thesis
    by (simp add: patientTick_def Let_def r1 r2 r3 r4)
qed

lemma reactivation_pass_not_handled:
  assumes "\<not> (reactivationDue now p \<and> smsResult w (p_id p) SmartReactivation \<noteq> Threw)"
  shows "fst (pass (reactivationQuery now) (reactivationStep w now) p) = p"
  using assms by (auto simp: pass_def reactivationStep_def reactivationDue_def)

lemma newUser_pass_attempts:
  "q = fst (pass newUserQuery (newUserStep w now ds) p) \<Longrightarrow>
   (reminderAttempts q = reminderAttempts p \<and> smsReminderCycle q = smsReminderCycle p) \<or>
   (smsReminderCycle p = new_user \<and> reminderAttempts p = 0 \<and> reminderAttempts q = 1 \<and>
      smsReminderCycle q = new_user) \<or>
   (smsReminderCycle p = new_user \<and> reminderAttempts p = 1 \<and> reminderAttempts q = 2 \<and>
      smsReminderCycle q = inactive_user)"
  by (simp add: pass_def newUserStep_def sendStep_def newUserQuery_def split: option.split)

lemma activeUser_pass_attempts:
  "q = fst (pass activeUserQuery (activeUserStep tz w now ds) p) \<Longrightarrow>
   (reminderAttempts q = reminderAttempts p \<and> smsReminderCycle q = smsReminderCycle p) \<or>
   (smsReminderCycle p = active_user \<and> reminderAttempts p = 0 \<and> reminderAttempts q = 1 \<and>
      smsReminderCycle q = active_user) \<or>
   (smsReminderCycle p = active_user \<and> reminderAttempts p = 1 \<and> reminderAttempts q = 2 \<and>
      smsReminderCycle q = active_user) \<or>
   (smsReminderCycle p = active_user \<and> reminderAttempts p = 2 \<and> reminderAttempts q = 3 \<and>
      smsReminderCycle q = inactive_user)"
  by (simp add: pass_def activeUserStep_def Let_def sendStep_def activeUserQuery_def split: option.split)

lemma admin_pass_attempts:
  "q = fst (pass inactiveUserQuery (adminStep w now) p) \<Longrightarrow>
   (reminderAttempts q = reminderAttempts p \<and> smsReminderCycle q = smsReminderCycle p) \<or>
   (smsReminderCycle p = inactive_user \<and> reminderAttempts p = 3 \<and> reminderAttempts q = 3 \<and>
      smsReminderCycle q = admin_notified)"
  by (simp add: pass_def adminStep_def inactiveUserQuery_def adminNotified_def Let_def)

lemma attempts_chain:
  fixes a0 a1 a2 a3 :: int and c0 c1 c2 c3 :: cycle
  assumes "(a1 = a0 \<and> c1 = c0) \<or> (c0 = new_user \<and> a0 = 0 \<and> a1 = 1 \<and> c1 = new_user) \<or>
           (c0 = new_user \<and> a0 = 1 \<and> a1 = 2 \<and> c1 = inactive_user)"
    and "(a2 = a1 \<and> c2 = c1) \<or> (c1 = active_user \<and> a1 = 0 \<and> a2 = 1 \<and> c2 = active_user) \<or>
         (c1 = active_user \<and> a1 = 1 \<and> a2 = 2 \<and> c2 = active_user) \<or>
         (c1 = active_user \<and> a1 = 2 \<and> a2 = 3 \<and> c2 = inactive_user)"
    and "(a3 = a2 \<and> c3 = c2) \<or> (c2 = inactive_user \<and> a2 = 3 \<and> a3 = 3 \<and> c3 = admin_notified)"
  shows "a0 \<le> a3 \<and> a3 \<le> a0 + 1 \<and>
         (c3 \<noteq> c0 \<longrightarrow> (a3 = 2 \<or> a3 = 3) \<and> (c3 = inactive_user \<or> c3 = admin_notified))"
  using assms by auto

lemma patientTick_attempts:
  assumes "\<not> (reactivationDue now p \<and> smsResult w (p_id p) SmartReactivation \<noteq> Threw)"
    and "q = fst (patientTick tz w now ds p)"
  shows "reminderAttempts p \<le> reminderAttempts q \<and> reminderAttempts q \<le> reminderAttempts p + 1 \<and>
         (smsReminderCycle q \<noteq> smsReminderCycle p \<longrightarrow>
            (reminderAttempts q = 2 \<or> reminderAttempts q = 3) \<and>
            (smsReminderCycle q = inactive_user \<or> smsReminderCycle q = admin_notified))"
proof -
  let ?q1 = "fst (pass newUserQuery (newUserStep w now ds) p)"
  let ?q2 = "fst (pass activeUserQuery (activeUserStep tz w now ds) ?q1)"
  let ?q3 = "fst (pass inactiveUserQuery (adminStep w now) ?q2)"
  have q: "q = ?q3"
    using assms(2) by (simp add: patientTick_def Let_def reactivation_pass_not_handled[OF assms(1)])
  show ?thesis
    unfolding q
    by (rule attempts_chain[OF newUser_pass_attempts[OF refl] activeUser_pass_attempts[OF refl]
          admin_pass_attempts[OF refl]])
qed

lemma reactivationDue_iff:
  "reactivationDue now p \<longleftrightarrow>
     active p \<and> verified p \<and> previousActiveState p = Some False \<and>
     (\<exists>a. lastActivationDate p = Some a \<and> now - 2 * msPerHour \<le> a \<and> date p < a \<and>
          (welcomeSmsSentAt p = None \<or> (\<exists>h. welcomeSmsSentAt p = Some h \<and> h < a)))"
  by (auto simp: reactivationDue_def reactivationQuery_def notYetHandled_def msPerHour_def
      split: option.splits)

lemma reactivation_pass_event:
  "Sms i SmartReactivation r \<in> set (snd (pass (reactivationQuery now) (reactivationStep w now) p)) \<longleftrightarrow>
     reactivationDue now p \<and> i = p_id p \<and> r = smsResult w (p_id p) SmartReactivation"
  by (auto simp: pass_def reactivationStep_def reactivationDue_def)

lemma newUser_pass_no_reactivation:
  "Sms i SmartReactivation r \<notin> set (snd (pass newUserQuery (newUserStep w now ds) p))"
  by (simp add: pass_def newUserStep_def sendStep_def split: option.split)

lemma activeUser_pass_no_reactivation:
  "Sms i SmartReactivation r \<notin> set (snd (pass activeUserQuery (activeUserStep tz w now ds) p))"
  by (simp add: pass_def activeUserStep_def Let_def sendStep_def split: option.split)

lemma admin_pass_no_sms:
  "Sms i k r \<notin> set (snd (pass inactiveUserQuery (adminStep w now) p))"
  by (simp add: pass_def adminStep_def Let_def)

lemma patientTick_reactivation_event:
  "Sms i SmartReactivation r \<in> set (snd (patientTick tz w now ds p)) \<longleftrightarrow>
     reactivationDue now p \<and> i = p_id p \<and> r = smsResult w (p_id p) SmartReactivation"
  by (simp add: patientTick_def Let_def reactivation_pass_event newUser_pass_no_reactivation
      activeUser_pass_no_reactivation admin_pass_no_sms)

lemma own_events: "event_patient e = i \<Longrightarrow> e \<in> set (eventsFor i evs) \<longleftrightarrow> e \<in> set evs"
  by (auto simp: eventsFor_def)

lemma reactivation_pass_kind:
  "Sms i k r \<in> set (snd (pass (reactivationQuery now) (reactivationStep w now) p)) \<Longrightarrow>
   k = SmartReactivation"
  by (cases "reactivationQuery now p"; cases "notYetHandled p")
     (simp_all add: pass_def reactivationStep_def)

lemma newUserStep_sent:
  "fst (newUserStep w now ds p) = id \<or>
   (\<exists>k. snd (newUserStep w now ds p) = [Sms (p_id p) k Sent])"
  by (simp add: newUserStep_def sendStep_def split: option.split)

lemma activeUserStep_sent:
  "fst (activeUserStep tz w now ds p) = id \<or>
   (\<exists>k. snd (activeUserStep tz w now ds p) = [Sms (p_id p) k Sent])"
  by (simp add: activeUserStep_def Let_def sendStep_def split: option.split)

lemma pass_failed:
  assumes "fst (step p) = id \<or> (\<exists>k. snd (step p) = [Sms (p_id p) k Sent])"
    and "Sms i k r \<in> set (snd (pass query step p))" and "r \<noteq> Sent"
  shows "fst (pass query step p) = p"
proof (cases "query p")
  case True
  with assms(2) have "Sms i k r \<in> set (snd (step p))" by (simp add: pass_def)
  with assms(1,3) have "fst (step p) = id" by auto
  with True show ?thesis by (simp add: pass_def)
next
  case False
  then show ?thesis by (simp add: pass_def)
qed

lemma newUser_pass_failed:
  "Sms i k r \<in> set (snd (pass newUserQuery (newUserStep w now ds) p)) \<Longrightarrow> r \<noteq> Sent \<Longrightarrow>
   fst (pass newUserQuery (newUserStep w now ds) p) = p"
  by (rule pass_failed[OF newUserStep_sent])

lemma activeUser_pass_failed:
  "Sms i k r \<in> set (snd (pass activeUserQuery (activeUserStep tz w now ds) p)) \<Longrightarrow> r \<noteq> Sent \<Longrightarrow>
   fst (pass activeUserQuery (activeUserStep tz w now ds) p) = p"
  by (rule pass_failed[OF activeUserStep_sent])

lemma newUser_pass_event_cycle:
  assumes "e \<in> set (snd (pass newUserQuery step p))"
  shows "smsReminderCycle p = new_user"
proof (cases "newUserQuery p")
  case True
  then show ?thesis by (simp add: newUserQuery_def)
next
  case False
  with assms show ?thesis by (simp add: pass_def)
qed

lemma activeUser_pass_event_cycle:
  assumes "e \<in> set (snd (pass activeUserQuery step p))"
  shows "smsReminderCycle p = active_user"
proof (cases "activeUserQuery p")
  case True
  then show ?thesis by (simp add: activeUserQuery_def)
next
  case False
  with assms show ?thesis by (simp add: pass_def)
qed

lemma newUser_pass_active:
  assumes "smsReminderCycle (fst (pass newUserQuery (newUserStep w now ds) p)) = active_user"
  shows "pass newUserQuery (newUserStep w now ds) p = (p, [])"
proof (cases "newUserQuery p")
  case True
  then have "smsReminderCycle p = new_user" by (simp add: newUserQuery_def)
  with assms newUser_pass_attempts[OF refl, of w now ds p] show ?thesis by auto
next
  case False
  then show ?thesis by (simp add: pass_def)
qed

lemma patientTick_failed_reminder:
  assumes e: "Sms i k r \<in> set (snd (patientTick tz w now ds p))"
    and k: "k \<noteq> SmartReactivation" and r: "r \<noteq> Sent"
  shows "fst (patientTick tz w now ds p) = p"
    and "fst (pass (reactivationQuery now) (reactivationStep w now) p) = p"
proof -
  let ?r1 = "pass (reactivationQuery now) (reactivationStep w now) p"
  let ?r2 = "pass newUserQuery (newUserStep w now ds) (fst ?r1)"
  let ?r3 = "pass activeUserQuery (activeUserStep tz w now ds) (fst ?r2)"
  let ?r4 = "pass inactiveUserQuery (adminStep w now) (fst ?r3)"
  have nh: "\<not> (reactivationDue now p \<and> smsResult w (p_id p) SmartReactivation \<noteq> Threw)"
  proof
    assume "reactivationDue now p \<and> smsResult w (p_id p) SmartReactivation \<noteq> Threw"
    then have "patientTick tz w now ds p =
        (reactivationReset now p,
         [Sms (p_id p) SmartReactivation (smsResult w (p_id p) SmartReactivation)])"
      by (simp add: patientTick_reactivated)
    with e k show False by simp
  qed
  then show p1: "fst ?r1 = p" by (rule reactivation_pass_not_handled)
  have "Sms i k r \<in> set (snd ?r1) \<or> Sms i k r \<in> set (snd ?r2) \<or> Sms i k r \<in> set (snd ?r3)"
    using e admin_pass_no_sms[of i k r w now "fst ?r3"] by (simp add: patientTick_def Let_def)
  then consider (new) "Sms i k r \<in> set (snd ?r2)" | (act) "Sms i k r \<in> set (snd ?r3)"
    using reactivation_pass_kind[of i k r now w p] k by blast
  then show "fst (patientTick tz w now ds p) = p"
  proof cases
    case new
    then have f2: "fst ?r2 = p" using r p1 by (simp add: newUser_pass_failed)
    from new have "smsReminderCycle p = new_user"
      using p1 newUser_pass_event_cycle[of "Sms i k r" "newUserStep w now ds" "fst ?r1"] by simp
    then have "pass activeUserQuery (activeUserStep tz w now ds) p = (p, [])"
      "pass inactiveUserQuery (adminStep w now) p = (p, [])"
      by (simp_all add: activeUser_pass_other admin_pass_other)
    then show ?thesis by (simp add: patientTick_def Let_def f2)
  next
    case act
    then have c2: "smsReminderCycle (fst ?r2) = active_user"
      by (rule activeUser_pass_event_cycle)
    then have r2: "?r2 = (p, [])" using p1 newUser_pass_active[of w now ds p] by simp
    from act have f3: "fst (pass activeUserQuery (activeUserStep tz w now ds) p) = p"
      using r r2 activeUser_pass_failed[of i k r tz w now ds p] by simp
    have "pass inactiveUserQuery (adminStep w now) p = (p, [])"
      using c2 r2 by (simp add: admin_pass_other)
    then show ?thesis by (simp add: patientTick_def Let_def r2 f3)
  qed
qed

lemma sendStep_other_world:
  "p_id x \<noteq> i \<Longrightarrow>
   sendStep (w\<lparr>smsResult := (smsResult w)(i := f)\<rparr>) x k upd = sendStep w x k upd"
  by (simp add: sendStep_def)

lemma step_other_world:
  assumes "p_id x \<noteq> i"
  shows "reactivationStep (w\<lparr>smsResult := (smsResult w)(i := f)\<rparr>) now x = reactivationStep w now x"
    and "newUserStep (w\<lparr>smsResult := (smsResult w)(i := f)\<rparr>) now ds x = newUserStep w now ds x"
    and "activeUserStep tz (w\<lparr>smsResult := (smsResult w)(i := f)\<rparr>) now ds x = activeUserStep tz w now ds x"
    and "adminStep (w\<lparr>smsResult := (smsResult w)(i := f)\<rparr>) now x = adminStep w now x"
  using assms
  by (simp_all add: reactivationStep_def newUserStep_def activeUserStep_def Let_def adminStep_def
      sendStep_other_world split: option.split)

lemma pass_other_world:
  assumes "p_id x \<noteq> i"
  shows "pass (reactivationQuery now) (reactivationStep (w\<lparr>smsResult := (smsResult w)(i := f)\<rparr>) now) x =
           pass (reactivationQuery now) (reactivationStep w now) x"
    and "pass newUserQuery (newUserStep (w\<lparr>smsResult := (smsResult w)(i := f)\<rparr>) now ds) x =
           pass newUserQuery (newUserStep w now ds) x"
    and "pass activeUserQuery (activeUserStep tz (w\<lparr>smsResult := (smsResult w)(i := f)\<rparr>) now ds) x =
           pass activeUserQuery (activeUserStep tz w now ds) x"
    and "pass inactiveUserQuery (adminStep (w\<lparr>smsResult := (smsResult w)(i := f)\<rparr>) now) x =
           pass inactiveUserQuery (adminStep w now) x"
  by (simp_all add: pass_def step_other_world[OF assms])

lemma patientTick_other_world:
  assumes "p_id q \<noteq> i"
  shows "patientTick tz (w\<lparr>smsResult := (smsResult w)(i := f)\<rparr>) now ds q = patientTick tz w now ds q"
proof -
  let ?w = "w\<lparr>smsResult := (smsResult w)(i := f)\<rparr>"
  let ?r1 = "pass (reactivationQuery now) (reactivationStep w now) q"
  let ?r2 = "pass newUserQuery (newUserStep w now ds) (fst ?r1)"
  let ?r3 = "pass activeUserQuery (activeUserStep tz w now ds) (fst ?r2)"
  have i1: "p_id (fst ?r1) \<noteq> i" using assms by (simp add: pass_id[OF reactivationStep_id])
  have i2: "p_id (fst ?r2) \<noteq> i" using i1 by (simp add: pass_id[OF newUserStep_id])
  have i3: "p_id (fst ?r3) \<noteq> i" using i2 by (simp add: pass_id[OF activeUserStep_id])
  show ?thesis
    by (simp add: patientTick_def Let_def pass_other_world(1)[OF assms]
        pass_other_world(2)[OF i1] pass_other_world(3)[OF i2] pass_other_world(4)[OF i3])
qed

lemma newUserStep_event:
  "Sms i k r \<in> set (snd (newUserStep w now ds p)) \<longleftrightarrow>
     hasPhone p \<and> i = p_id p \<and> r = smsResult w (p_id p) k \<and>
     (\<exists>t. welcomeSmsSentAt p = Some t \<and>
        (k = NewUserReminder 1 \<and> t + 21600000 \<le> now \<and> reminderAttempts p = 0 \<and>
           \<not> doseSince ds (p_id p) t \<or>
         k = NewUserReminder 2 \<and> t + 86400000 \<le> now \<and> reminderAttempts p = 1 \<and>
           \<not> doseSince ds (p_id p) (t + 21600000)))"
  by (auto simp: newUserStep_def sendStep_def split: option.split)

lemma activeUserStep_event:
  "Sms i k r \<in> set (snd (activeUserStep tz w now ds p)) \<longleftrightarrow>
     hasPhone p \<and> i = p_id p \<and> r = smsResult w (p_id p) k \<and>
     (\<exists>t. lastDoseTime p = Some t \<and>
        (k = DoseReminder 1 \<and> calculateNextReminderTime tz t \<le> now \<and> reminderAttempts p = 0 \<and>
           \<not> doseSince ds (p_id p) (calculateNextReminderTime tz t) \<or>
         k = DoseReminder 2 \<and> calculateSecondReminderTime tz t \<le> now \<and> reminderAttempts p = 1 \<and>
           \<not> doseSince ds (p_id p) (calculateSecondReminderTime tz t) \<or>
         k = ThirdReminder \<and>
           calculateThirdReminderTime tz (calculateSecondReminderTime tz t) \<le> now \<and>
           reminderAttempts p = 2 \<and>
           \<not> doseSince ds (p_id p)
               (calculateThirdReminderTime tz (calculateSecondReminderTime tz t))))"
  by (auto simp: activeUserStep_def Let_def sendStep_def Let_def split: option.split)

lemma newUserStep_retry:
  assumes "Sms i k r \<in> set (snd (newUserStep w now ds p))" and "now \<le> now'"
  shows "Sms (p_id p) k (smsResult w' (p_id p) k) \<in> set (snd (newUserStep w' now' ds p))"
  using assms unfolding newUserStep_event by auto

lemma activeUserStep_retry:
  assumes "Sms i k r \<in> set (snd (activeUserStep tz w now ds p))" and "now \<le> now'"
  shows "Sms (p_id p) k (smsResult w' (p_id p) k) \<in> set (snd (activeUserStep tz w' now' ds p))"
  using assms unfolding activeUserStep_event by auto

lemma patientTick_retry:
  assumes e: "Sms i k r \<in> set (snd (patientTick tz w now ds p))"
    and k: "k \<noteq> SmartReactivation" and r: "r \<noteq> Sent"
    and later: "now \<le> now'" and nd: "\<not> reactivationDue now' p"
  shows "Sms (p_id p) k (smsResult w' (p_id p) k) \<in> set (snd (patientTick tz w' now' ds p))"
proof -
  let ?r1 = "pass (reactivationQuery now) (reactivationStep w now) p"
  let ?r2 = "pass newUserQuery (newUserStep w now ds) p"
  let ?r3 = "pass activeUserQuery (activeUserStep tz w now ds) (fst ?r2)"
  have p1: "fst ?r1 = p" by (rule patientTick_failed_reminder(2)[OF e k r])
  have r1': "pass (reactivationQuery now') (reactivationStep w' now') p = (p, [])"
    using nd by (rule reactivation_pass_not_due)
  have "Sms i k r \<in> set (snd ?r1) \<or> Sms i k r \<in> set (snd ?r2) \<or> Sms i k r \<in> set (snd ?r3)"
    using e admin_pass_no_sms[of i k r w now "fst ?r3"] by (simp add: patientTick_def Let_def p1)
  then consider (new) "Sms i k r \<in> set (snd ?r2)" | (act) "Sms i k r \<in> set (snd ?r3)"
    using reactivation_pass_kind[of i k r now w p] k by blast
  then show ?thesis
  proof cases
    case new
    then have q: "newUserQuery p" and s: "Sms i k r \<in> set (snd (newUserStep w now ds p))"
      by (cases "newUserQuery p"; simp add: pass_def)+
    have "Sms (p_id p) k (smsResult w' (p_id p) k)
        \<in> set (snd (pass newUserQuery (newUserStep w' now' ds) p))"
      using q newUserStep_retry[OF s later, where w' = w'] by (simp add: pass_def)
    then show ?thesis by (simp add: patientTick_def Let_def r1')
  next
    case act
    then have c2: "smsReminderCycle (fst ?r2) = active_user"
      by (rule activeUser_pass_event_cycle)
    then have r2: "?r2 = (p, [])" by (rule newUser_pass_active)
    then have c: "smsReminderCycle p = active_user" using c2 by simp
    have r2': "pass newUserQuery (newUserStep w' now' ds) p = (p, [])"
      using c by (simp add: newUser_pass_other)
    from act r2 have q: "activeUserQuery p" and s: "Sms i k r \<in> set (snd (activeUserStep tz w now ds p))"
      by (cases "activeUserQuery p"; simp add: pass_def)+
    have "Sms (p_id p) k (smsResult w' (p_id p) k)
        \<in> set (snd (pass activeUserQuery (activeUserStep tz w' now' ds) p))"
      using q activeUserStep_retry[OF s later, where w' = w'] by (simp add: pass_def)
    then show ?thesis by (simp add: patientTick_def Let_def r1' r2')
  qed
qed


lemma no_phone_steps:
  assumes "\<not> hasPhone p"
  shows "newUserStep w now ds p = (id, [])" and "activeUserStep tz w now ds p = (id, [])"
  using assms by (simp_all add: newUserStep_def activeUserStep_def Let_def)

lemma patientTick_no_phone:
  assumes "\<not> hasPhone p" and "\<not> reactivationDue now p" and "\<not> inactiveUserQuery p"
  shows "patientTick tz w now ds p = (p, [])"
proof -
  have r1: "pass (reactivationQuery now) (reactivationStep w now) p = (p, [])"
    using assms(2) by (rule reactivation_pass_not_due)
  have r2: "pass newUserQuery (newUserStep w now ds) p = (p, [])"
    by (simp add: pass_def no_phone_steps[OF assms(1)])
  have r3: "pass activeUserQuery (activeUserStep tz w now ds) p = (p, [])"
    by (simp add: pass_def no_phone_steps[OF assms(1)])
  have r4: "pass inactiveUserQuery (adminStep w now) p = (p, [])"
    using assms(3) by (simp add: pass_def)
  show ?thesis by (simp add: patientTick_def Let_def r1 r2 r3 r4)
qed

lemma subscriptionBody_step:
  "subscriptionBody mail now p s =
     (findByIdAndUpdate (p_id p) (fst (subscriptionStep mail now p)) (fst s),
      snd s @ snd (subscriptionStep mail now p))"
  by (simp add: subscriptionBody_def subscriptionStep_def Let_def findByIdAndUpdate_id
      split: option.split)

lemma subscriptionStep_id: "p_id (fst (subscriptionStep mail now p) q) = p_id q"
  by (simp add: subscriptionStep_def Let_def deactivate_def split: option.split)

lemma subscriptionStep_own:
  "e \<in> set (snd (subscriptionStep mail now p)) \<Longrightarrow> mail_patient e = p_id p"
  by (cases "newDate (subscriptionExpiry p)")
     (auto simp: subscriptionStep_def Let_def split: if_splits)

lemma subscriptionTick_patient:
  assumes "distinct (map p_id (patients st))" and "p \<in> set (patients st)"
  shows "findById (p_id p) (patients (fst (subscriptionTick mail now st))) =
           Some (if subscriptionQuery p then fst (subscriptionStep mail now p) p else p)"
    and "mailsFor (p_id p) (snd (subscriptionTick mail now st)) =
           (if subscriptionQuery p then snd (subscriptionStep mail now p) else [])"
proof -
  let ?F = "\<lambda>q. if subscriptionQuery q then fst (subscriptionStep mail now q) q else q"
  have run: "fold (subscriptionBody mail now) (filter subscriptionQuery (patients st)) (patients st, []) =
      (map ?F (patients st),
       [] @ concat (map (\<lambda>p. snd (subscriptionStep mail now p)) (filter subscriptionQuery (patients st))))"
    by (rule fold_body[where step="subscriptionStep mail now"])
       (simp_all add: subscriptionBody_step subscriptionStep_id assms(1))
  have ids: "p_id (?F q) = p_id q" for q
    by (simp add: subscriptionStep_id)
  show "findById (p_id p) (patients (fst (subscriptionTick mail now st))) = Some (?F p)"
    using findById_map[of ?F, OF ids assms]
    by (simp add: subscriptionTick_def Let_def run)
  show "mailsFor (p_id p) (snd (subscriptionTick mail now st)) =
           (if subscriptionQuery p then snd (subscriptionStep mail now p) else [])"
    using events_of_patient[of "\<lambda>p. snd (subscriptionStep mail now p)" mail_patient
        "patients st" p subscriptionQuery, OF subscriptionStep_own assms]
    by (simp add: subscriptionTick_def Let_def run mailsFor_def)
qed

lemma daysUntilExpiry_ceiling:
  "daysUntilExpiry e now = \<lceil>real_of_int (e - now) / 86400000\<rceil>"
proof -
  have "\<lceil>real_of_int (e - now) / real_of_int 86400000\<rceil> = - (- (e - now) div 86400000)"
    by (rule ceiling_divide_eq_div)
  then show ?thesis by (simp add: daysUntilExpiry_def msPerDay_def Let_def)
qed

lemma daysUntilExpiry_next_day:
  "daysUntilExpiry e (now + msPerDay) = daysUntilExpiry e now - 1"
  "daysUntilExpiry e (now - msPerDay) = daysUntilExpiry e now + 1"
proof -
  have a: "(- (e - (now + 86400000))) div 86400000 = (- (e - now)) div 86400000 + 1"
    using div_add_self2[of 86400000 "- (e - now)"] by (simp add: algebra_simps)
  have b: "(- (e - (now - 86400000))) div 86400000 + 1 = (- (e - now)) div 86400000"
    using div_add_self2[of 86400000 "- (e - (now - 86400000))"] by (simp add: algebra_simps)
  show "daysUntilExpiry e (now + msPerDay) = daysUntilExpiry e now - 1"
    using a by (simp add: daysUntilExpiry_def msPerDay_def Let_def)
  show "daysUntilExpiry e (now - msPerDay) = daysUntilExpiry e now + 1"
    using b by (simp add: daysUntilExpiry_def msPerDay_def Let_def)
qed


lemmas subscription_eval =
  subscriptionTick_def subscriptionQuery_def subscriptionBody_def daysUntilExpiry_def
  deactivate_def msPerDay_def Let_def mailsFor_def findById_def

text \<open>
  The admin alert is not a reminder message. The inactive-user query runs after the
  active-user loop, so a patient whose final reminder a tick has just sent is alerted about
  in the same tick.
\<close>

lemma final_reminder_and_alert_in_one_tick:
  "reminderTick utcZone world0 200000000 \<lparr>patients = [finalDue], doses = [dose0]\<rparr> =
     (\<lparr>patients = [finalDue\<lparr>reminderAttempts := 3, lastReminderSent := Some 200000000,
                             smsReminderCycle := admin_notified,
                             adminNotifiedDate := Some 200000000\<rparr>], doses = [dose0]\<rparr>,
      [Sms 1 ThirdReminder Sent, AdminAlert 1 [''admin@example.org''] Sent])"
  by (simp add: tick_eval finalDue_def activeUser_def patient0_def dose0_def world0_def)

text \<open>
  What the daily subscription tick does for a patient that its query returns: the day count is
  the ceiling of \<open>(subscriptionExpiry - now) / 1 day\<close>; the 7-day warning is called
  exactly when the count is 7, the urgent warning exactly when it is 1, the expired notice
  exactly when it is 0; a tick one day later or earlier sees the count one lower or higher;
  with a count of 0 or below the patient is deactivated, unless the expired notice of that
  tick throws; with a count above 0 the patient is left as it was.
\<close>

lemma subscriptionTick_behaviour:
  assumes "distinct (map p_id (patients st))" and "p \<in> set (patients st)"
    and "subscriptionQuery p" and "newDate (subscriptionExpiry p) = Some e"
  shows "daysUntilExpiry e now = \<lceil>real_of_int (e - now) / real_of_int msPerDay\<rceil> \<and>
         mailsFor (p_id p) (snd (subscriptionTick mail now st)) =
           (if daysUntilExpiry e now = 7
              then [Mail (p_id p) ExpiryWarning (mail (p_id p) ExpiryWarning)]
            else if daysUntilExpiry e now = 1
              then [Mail (p_id p) ExpiryUrgent (mail (p_id p) ExpiryUrgent)]
            else if daysUntilExpiry e now = 0
              then [Mail (p_id p) ExpiredNotification (mail (p_id p) ExpiredNotification)]
            else []) \<and>
         daysUntilExpiry e (now + msPerDay) = daysUntilExpiry e now - 1 \<and>
         daysUntilExpiry e (now - msPerDay) = daysUntilExpiry e now + 1 \<and>
         (daysUntilExpiry e now \<le> 0 \<and>
          \<not> (daysUntilExpiry e now = 0 \<and> mail (p_id p) ExpiredNotification = Threw) \<longrightarrow>
            findById (p_id p) (patients (fst (subscriptionTick mail now st))) =
              Some (p\<lparr>active := False, deactivatedAt := Some now,
                      deactivationReason := Some ''Subscription expired''\<rparr>)) \<and>
         (0 < daysUntilExpiry e now \<longrightarrow>
            findById (p_id p) (patients (fst (subscriptionTick mail now st))) = Some p)"
proof -
  have act: "active p" using assms(3) by (simp add: subscriptionQuery_def)
  have c: "daysUntilExpiry e now = \<lceil>real_of_int (e - now) / real_of_int msPerDay\<rceil>"
    by (simp add: daysUntilExpiry_ceiling msPerDay_def)
  have m: "mailsFor (p_id p) (snd (subscriptionTick mail now st)) =
           (if daysUntilExpiry e now = 7
              then [Mail (p_id p) ExpiryWarning (mail (p_id p) ExpiryWarning)]
            else if daysUntilExpiry e now = 1
              then [Mail (p_id p) ExpiryUrgent (mail (p_id p) ExpiryUrgent)]
            else if daysUntilExpiry e now = 0
              then [Mail (p_id p) ExpiredNotification (mail (p_id p) ExpiredNotification)]
            else [])"
    by (simp add: subscriptionTick_patient(2)[OF assms(1,2)] assms(3,4) subscriptionStep_def
        Let_def)
  have d: "findById (p_id p) (patients (fst (subscriptionTick mail now st))) =
              Some (p\<lparr>active := False, deactivatedAt := Some now,
                      deactivationReason := Some ''Subscription expired''\<rparr>)"
    if "daysUntilExpiry e now \<le> 0"
      "\<not> (daysUntilExpiry e now = 0 \<and> mail (p_id p) ExpiredNotification = Threw)"
    using that act
    by (auto simp: subscriptionTick_patient(1)[OF assms(1,2)] assms(3,4) subscriptionStep_def
        Let_def deactivate_def)
  have k: "findById (p_id p) (patients (fst (subscriptionTick mail now st))) = Some p"
    if "0 < daysUntilExpiry e now"
    using that
    by (simp add: subscriptionTick_patient(1)[OF assms(1,2)] assms(3,4) subscriptionStep_def
        Let_def)
  show ?thesis
    using c m d k daysUntilExpiry_next_day[of e now] by blast
qed

section \<open>The claims\<close>

text \<open>
  C1. The hook is to set \<open>nextReminderTime\<close> to 23 hours and 30 minutes after the dose; the
  comment and the documentation of \<^verbatim>\<open>calculateNextReminderTime\<close> say so. The code adds
  to the fields of local time instead of to the time value. On a host on US Eastern time a
  dose logged at 12:00 on 8 March 2025, the day before the clocks go forward, gets
  \<open>nextReminderTime\<close> 22 hours and 30 minutes after the dose. The other five fields are set
  as the claim says (\<open>dose_hook_fixed_offset\<close> has the whole claim for a host without
  transitions).
\<close>

theorem dose_hook_daylight_saving:
  "status (fst (logDose usEastern 1 (Some ''Basal'') 1741453200000
      \<lparr>patients = [patient0], doses = []\<rparr>)) = 201 \<and>
   findById 1 (patients (snd (logDose usEastern 1 (Some ''Basal'') 1741453200000
      \<lparr>patients = [patient0], doses = []\<rparr>))) =
     Some (patient0\<lparr>lastDoseTime := Some 1741453200000,
                    nextReminderTime := Some (1741453200000 + 22 * msPerHour + 30 * msPerMinute),
                    reminderAttempts := 0, lastReminderSent := None,
                    hasLoggedFirstDose := True, smsReminderCycle := active_user\<rparr>) \<and>
   1741453200000 + 22 * msPerHour + 30 * msPerMinute \<noteq>
     (1741453200000::int) + 23 * msPerHour + 30 * msPerMinute"
  by (simp add: logDose_def castType_def lastBasalDose_def Let_def updatePatientReminderData_def
      findById_def doseReset_def patient0_def calculateNextReminderTime_usEastern
      msPerHour_def msPerMinute_def)

text \<open>
  C10, as stated, fails in two cases in which the claim has the dose saved. A dose dated
  before the patient's latest Basal dose is rejected with 400 like one dated less than 20
  hours after it: the code tests only that the difference is below 20 hours. And a request
  whose \<^verbatim>\<open>type\<close> is missing or is not \<^verbatim>\<open>"Basal"\<close> or \<^verbatim>\<open>"Bolus"\<close> is answered with
  500 and nothing is saved.
\<close>

theorem logDose_twenty_hour_restriction_counterexample:
  "mostRecentBasal [dose0] 1 dose0 \<and> \<not> timestamp dose0 \<le> - 1000 \<and>
   logDose utcZone 1 (Some ''Bolus'') (- 1000) \<lparr>patients = [patient0], doses = [dose0]\<rparr> =
     (Restricted 0 72000000, \<lparr>patients = [patient0], doses = [dose0]\<rparr>) \<and>
   logDose utcZone 1 None 1000 \<lparr>patients = [patient0], doses = []\<rparr> =
     (ServerError, \<lparr>patients = [patient0], doses = []\<rparr>)"
  by (simp add: mostRecentBasal_def dose0_def logDose_def lastBasalDose_def castType_def Let_def
      msPerHour_def)

text \<open>
  C10, amended. If the new dose's timestamp less the timestamp of the patient's most recent
  Basal dose is below 20 hours, also when it is negative, \<^verbatim>\<open>logDose\<close> answers 400 and
  leaves the store as it was: no dose record and no change of any patient. Otherwise, if the
  request's \<^verbatim>\<open>type\<close> is \<^verbatim>\<open>"Basal"\<close> or \<^verbatim>\<open>"Bolus"\<close>, it answers 201, and the store is
  what the hook makes of the store that already holds the new dose; with any other
  \<^verbatim>\<open>type\<close>, or none, it answers 500 and leaves the store as it was.
\<close>

theorem logDose_twenty_hour_restriction:
  "((\<exists>b. mostRecentBasal (doses st) i b \<and> T - timestamp b < 20 * msPerHour) \<longrightarrow>
      status (fst (logDose tz i ty T st)) = 400 \<and> snd (logDose tz i ty T st) = st) \<and>
   (\<not> (\<exists>b. mostRecentBasal (doses st) i b \<and> T - timestamp b < 20 * msPerHour) \<longrightarrow>
      (\<forall>tp. castType ty = Some tp \<longrightarrow>
         status (fst (logDose tz i ty T st)) = 201 \<and>
         snd (logDose tz i ty T st) =
           updatePatientReminderData tz i T
             (st\<lparr>doses := doses st @ [\<lparr>patient = i, dose_type = tp, timestamp = T\<rparr>]\<rparr>)) \<and>
      (castType ty = None \<longrightarrow>
         status (fst (logDose tz i ty T st)) = 500 \<and> snd (logDose tz i ty T st) = st))"
proof -
  have eq: "(\<exists>b. mostRecentBasal (doses st) i b \<and> T - timestamp b < 20 * msPerHour) \<longleftrightarrow>
      (\<exists>b. lastBasalDose i (doses st) = Some b \<and> T - timestamp b < 20 * msPerHour)"
  proof
    assume "\<exists>b. mostRecentBasal (doses st) i b \<and> T - timestamp b < 20 * msPerHour"
    then obtain b where b: "mostRecentBasal (doses st) i b" "T - timestamp b < 20 * msPerHour"
      by blast
    from mostRecentBasal_time[OF b(1)] obtain b' where
      "lastBasalDose i (doses st) = Some b'" "timestamp b' = timestamp b" by blast
    with b(2) show "\<exists>b. lastBasalDose i (doses st) = Some b \<and> T - timestamp b < 20 * msPerHour"
      by auto
  next
    assume "\<exists>b. lastBasalDose i (doses st) = Some b \<and> T - timestamp b < 20 * msPerHour"
    then show "\<exists>b. mostRecentBasal (doses st) i b \<and> T - timestamp b < 20 * msPerHour"
      using lastBasalDose_mostRecent by blast
  qed
  show ?thesis
    unfolding eq using logDose_cases[of i st T tz ty] by auto
qed

theorem logDose_twenty_hour_restriction_witness:
  "(\<exists>b. mostRecentBasal (doses \<lparr>patients = [patient0], doses = [dose0]\<rparr>) 1 b \<and>
        3600000 - timestamp b < 20 * msPerHour) \<and>
   status (fst (logDose utcZone 1 (Some ''Bolus'') 3600000
      \<lparr>patients = [patient0], doses = [dose0]\<rparr>)) = 400 \<and>
   snd (logDose utcZone 1 (Some ''Bolus'') 3600000 \<lparr>patients = [patient0], doses = [dose0]\<rparr>) =
     \<lparr>patients = [patient0], doses = [dose0]\<rparr> \<and>
   \<not> (\<exists>b. mostRecentBasal (doses \<lparr>patients = [patient0], doses = [dose0]\<rparr>) 1 b \<and>
        72000000 - timestamp b < 20 * msPerHour) \<and>
   castType (Some ''Basal'') = Some Basal \<and>
   status (fst (logDose utcZone 1 (Some ''Basal'') 72000000
      \<lparr>patients = [patient0], doses = [dose0]\<rparr>)) = 201 \<and>
   doses (snd (logDose utcZone 1 (Some ''Basal'') 72000000
      \<lparr>patients = [patient0], doses = [dose0]\<rparr>)) =
     [dose0, \<lparr>patient = 1, dose_type = Basal, timestamp = 72000000\<rparr>] \<and>
   castType (Some ''Correction'') = None \<and>
   status (fst (logDose utcZone 1 (Some ''Correction'') 72000000
      \<lparr>patients = [patient0], doses = [dose0]\<rparr>)) = 500 \<and>
   snd (logDose utcZone 1 (Some ''Correction'') 72000000
      \<lparr>patients = [patient0], doses = [dose0]\<rparr>) = \<lparr>patients = [patient0], doses = [dose0]\<rparr>"
proof -
  let ?st = "\<lparr>patients = [patient0], doses = [dose0]\<rparr>"
  have m: "mostRecentBasal (doses ?st) 1 dose0"
    by (simp add: mostRecentBasal_def dose0_def)
  have a: "\<exists>b. mostRecentBasal (doses ?st) 1 b \<and> 3600000 - timestamp b < 20 * msPerHour"
    using m by (intro exI[of _ dose0]) (simp add: dose0_def msPerHour_def)
  have b: "\<not> (\<exists>b. mostRecentBasal (doses ?st) 1 b \<and> 72000000 - timestamp b < 20 * msPerHour)"
    by (simp add: mostRecentBasal_def dose0_def msPerHour_def)
  have c: "castType (Some ''Basal'') = Some Basal" "castType (Some ''Correction'') = None"
    by (simp_all add: castType_def)
  show ?thesis
    using logDose_twenty_hour_restriction[of ?st 1 3600000 utcZone "Some ''Bolus''"]
      logDose_twenty_hour_restriction[of ?st 1 72000000 utcZone "Some ''Basal''"]
      logDose_twenty_hour_restriction[of ?st 1 72000000 utcZone "Some ''Correction''"] a b c
    by (simp add: updatePatientReminderData_def findById_def patient0_def)
qed




text \<open>
  C3. For every patient of the store, so also for one in cycle \<open>inactive_user\<close> with
  \<open>reminderAttempts = 3\<close>: a tick calls the admin alert for the patient only if the
  patient's \<open>adminNotifiedDate\<close> is absent; an alert that does not throw, so every successful
  one, leaves the patient with \<open>adminNotifiedDate = now\<close> and cycle \<open>admin_notified\<close>; and
  once \<open>adminNotifiedDate\<close> is set, no tick of any later sequence of ticks calls the admin
  alert for the patient again.
\<close>

theorem admin_alert_once:
  assumes "distinct (map p_id (patients st))" and "p \<in> set (patients st)"
  shows "(AdminAlert (p_id p) emails r \<in> set (snd (reminderTick tz w now st)) \<longrightarrow>
            adminNotifiedDate p = None \<and>
            (r \<noteq> Threw \<longrightarrow>
               (\<exists>q. findById (p_id p) (patients (fst (reminderTick tz w now st))) = Some q \<and>
                    adminNotifiedDate q = Some now \<and> smsReminderCycle q = admin_notified))) \<and>
         (adminNotifiedDate p \<noteq> None \<longrightarrow>
            AdminAlert (p_id p) emails r \<notin> set (snd (runTicks tz ticks st)))"
proof -
  have a: "adminNotifiedDate p = None \<and>
            (r \<noteq> Threw \<longrightarrow>
               (\<exists>q. findById (p_id p) (patients (fst (reminderTick tz w now st))) = Some q \<and>
                    adminNotifiedDate q = Some now \<and> smsReminderCycle q = admin_notified))"
    if "AdminAlert (p_id p) emails r \<in> set (snd (reminderTick tz w now st))"
  proof -
    from eventsFor_member[OF that]
    have e: "AdminAlert (p_id p) emails r \<in> set (snd (patientTick tz w now (doses st) p))"
      by (simp add: reminderTick_patient(2)[OF assms])
    then have "adminNotifiedDate p = None"
      using patientTick_notified(2)[of p "p_id p" emails r tz w now "doses st"] by blast
    moreover have "r \<noteq> Threw \<Longrightarrow> adminNotifiedDate (fst (patientTick tz w now (doses st) p)) = Some now \<and>
         smsReminderCycle (fst (patientTick tz w now (doses st) p)) = admin_notified"
      by (rule patientTick_alert[OF e])
    ultimately show ?thesis
      by (simp add: reminderTick_patient(1)[OF assms])
  qed
  show ?thesis
    using a runTicks_no_alert[OF assms] by blast
qed


theorem admin_alert_once_witness:
  "distinct (map p_id (patients \<lparr>patients = [lapsedUser], doses = [dose0]\<rparr>)) \<and>
   lapsedUser \<in> set (patients \<lparr>patients = [lapsedUser], doses = [dose0]\<rparr>) \<and>
   AdminAlert (p_id lapsedUser) [''admin@example.org''] Sent
     \<in> set (snd (reminderTick utcZone world0 200000000 \<lparr>patients = [lapsedUser], doses = [dose0]\<rparr>)) \<and>
   adminNotifiedDate lapsedUser = None \<and> Sent \<noteq> Threw \<and>
   findById 1 (patients (fst (reminderTick utcZone world0 200000000
       \<lparr>patients = [lapsedUser], doses = [dose0]\<rparr>))) =
     Some (lapsedUser\<lparr>adminNotifiedDate := Some 200000000, smsReminderCycle := admin_notified\<rparr>) \<and>
   distinct (map p_id (patients \<lparr>patients = [adminNotified 200000000 lapsedUser], doses = [dose0]\<rparr>)) \<and>
   adminNotified 200000000 lapsedUser
     \<in> set (patients \<lparr>patients = [adminNotified 200000000 lapsedUser], doses = [dose0]\<rparr>) \<and>
   adminNotifiedDate (adminNotified 200000000 lapsedUser) \<noteq> None \<and>
   AdminAlert (p_id (adminNotified 200000000 lapsedUser)) [''admin@example.org''] Sent
     \<notin> set (snd (runTicks utcZone [(world0, 201800000), (world0, 203600000)]
                  \<lparr>patients = [adminNotified 200000000 lapsedUser], doses = [dose0]\<rparr>))"
proof -
  let ?st = "\<lparr>patients = [lapsedUser], doses = [dose0]\<rparr>"
  let ?st' = "\<lparr>patients = [adminNotified 200000000 lapsedUser], doses = [dose0]\<rparr>"
  have d: "distinct (map p_id (patients ?st))" and m: "lapsedUser \<in> set (patients ?st)"
    by simp_all
  have d': "distinct (map p_id (patients ?st'))"
    and m': "adminNotified 200000000 lapsedUser \<in> set (patients ?st')"
    by simp_all
  have t: "reminderTick utcZone world0 200000000 ?st =
      (\<lparr>patients = [lapsedUser\<lparr>adminNotifiedDate := Some 200000000,
                                smsReminderCycle := admin_notified\<rparr>], doses = [dose0]\<rparr>,
       [AdminAlert 1 [''admin@example.org''] Sent])"
    by (simp add: tick_eval lapsedUser_def patient0_def dose0_def world0_def)
  have n: "adminNotifiedDate (adminNotified 200000000 lapsedUser) \<noteq> None"
    by (simp add: adminNotified_def)
  have i: "p_id lapsedUser = 1" by (simp add: lapsedUser_def patient0_def)
  show ?thesis
    using admin_alert_once[OF d m, of "[''admin@example.org'']" Sent utcZone world0 200000000 "[]"]
      admin_alert_once[OF d' m', of "[''admin@example.org'']" Sent utcZone world0 200000000
        "[(world0, 201800000), (world0, 203600000)]"] n
    by (simp add: t i findById_def)
qed

text \<open>
  C4. For every patient of the store and every tick, at most one reminder message is sent
  or tried for the patient: of the 6-hour and the 24-hour message of the new-user loop and
  the 23h30m, the 24h30m and the final message of the active-user loop, a tick calls at most
  one. Each block tests the \<open>reminderAttempts\<close> of the patient as the query returned it, and
  a patient whom the new-user loop has sent a message is not in the active-user query.
\<close>

theorem one_reminder_per_tick:
  assumes "distinct (map p_id (patients st))" and "p \<in> set (patients st)"
  shows "length (filter isReminder (eventsFor (p_id p) (snd (reminderTick tz w now st)))) \<le> 1"
proof -
  let ?r1 = "pass (reactivationQuery now) (reactivationStep w now) p"
  let ?r2 = "pass newUserQuery (newUserStep w now (doses st)) (fst ?r1)"
  let ?r3 = "pass activeUserQuery (activeUserStep tz w now (doses st)) (fst ?r2)"
  let ?r4 = "pass inactiveUserQuery (adminStep w now) (fst ?r3)"
  have evs: "filter isReminder (eventsFor (p_id p) (snd (reminderTick tz w now st))) =
      filter isReminder (snd ?r2) @ filter isReminder (snd ?r3)"
    by (simp add: reminderTick_patient(2)[OF assms] patientTick_def Let_def
        reactivation_pass_no_reminder admin_pass_no_reminder)
  have l2: "length (filter isReminder (snd ?r2)) \<le> 1"
    using newUser_pass_one[of w now "doses st" "fst ?r1"] length_filter_le[of isReminder "snd ?r2"]
    by linarith
  have l3: "length (filter isReminder (snd ?r3)) \<le> 1"
    using activeUser_pass_one[of tz w now "doses st" "fst ?r2"] length_filter_le[of isReminder "snd ?r3"]
    by linarith
  show ?thesis
  proof (cases "snd ?r2 = []")
    case True
    with l3 show ?thesis by (simp add: evs)
  next
    case False
    then have "smsReminderCycle (fst ?r2) \<noteq> active_user"
      by (rule newUser_pass_leaves)
    then have "?r3 = (fst ?r2, [])"
      by (rule activeUser_pass_other)
    with l2 show ?thesis by (simp add: evs)
  qed
qed

theorem one_reminder_per_tick_witness:
  "distinct (map p_id (patients \<lparr>patients = [activeUser], doses = [dose0]\<rparr>)) \<and>
   activeUser \<in> set (patients \<lparr>patients = [activeUser], doses = [dose0]\<rparr>) \<and>
   snd (reminderTick utcZone world0 200000000 \<lparr>patients = [activeUser], doses = [dose0]\<rparr>) =
     [Sms 1 (DoseReminder 1) Sent] \<and>
   length (filter isReminder (eventsFor (p_id activeUser)
     (snd (reminderTick utcZone world0 200000000 \<lparr>patients = [activeUser], doses = [dose0]\<rparr>)))) \<le> 1"
proof -
  let ?st = "\<lparr>patients = [activeUser], doses = [dose0]\<rparr>"
  have d: "distinct (map p_id (patients ?st))" and m: "activeUser \<in> set (patients ?st)"
    by simp_all
  have t: "snd (reminderTick utcZone world0 200000000 ?st) = [Sms 1 (DoseReminder 1) Sent]"
    by (simp add: tick_eval activeUser_def patient0_def dose0_def world0_def)
  show ?thesis
    using one_reminder_per_tick[OF d m, of utcZone world0 200000000] d m t by simp
qed

text \<open>
  C5, as stated, fails: the claim has every change of cycle leave \<open>reminderAttempts = 0\<close>.
  The final reminder moves the patient from \<open>active_user\<close> to \<open>inactive_user\<close> and writes
  \<open>reminderAttempts = 3\<close>; the inactive-user query asks for exactly this count.
\<close>

theorem attempts_reset_counterexample:
  "smsReminderCycle finalDue = active_user \<and> reminderAttempts finalDue = 2 \<and>
   reminderTick utcZone worldNoAdmins 200000000 \<lparr>patients = [finalDue], doses = [dose0]\<rparr> =
     (\<lparr>patients = [finalDue\<lparr>reminderAttempts := 3, lastReminderSent := Some 200000000,
                             smsReminderCycle := inactive_user\<rparr>], doses = [dose0]\<rparr>,
      [Sms 1 ThirdReminder Sent]) \<and>
   smsReminderCycle (finalDue\<lparr>reminderAttempts := 3, lastReminderSent := Some 200000000,
                             smsReminderCycle := inactive_user\<rparr>) \<noteq> smsReminderCycle finalDue \<and>
   reminderAttempts (finalDue\<lparr>reminderAttempts := 3, lastReminderSent := Some 200000000,
                             smsReminderCycle := inactive_user\<rparr>) \<noteq> 0"
  by (simp add: tick_eval finalDue_def activeUser_def patient0_def dose0_def worldNoAdmins_def
      world0_def)

text \<open>
  C5, amended. For every patient of the store: a tick that handles the patient's
  reactivation (the reset is written) leaves \<open>reminderAttempts = 0\<close> and the cycle
  \<open>new_user\<close>; every other tick leaves \<open>reminderAttempts\<close> as it was or one higher, and
  where it changes the cycle, the new cycle is \<open>inactive_user\<close> or \<open>admin_notified\<close> and
  \<open>reminderAttempts\<close> is 2 or 3, not reset; a logged dose leaves \<open>reminderAttempts = 0\<close>
  and the cycle \<open>active_user\<close>. So the count is lowered, and then to 0, exactly by the
  reactivation reset and by a logged dose.
\<close>

theorem attempts_forward_or_reset:
  assumes "distinct (map p_id (patients st))" and "p \<in> set (patients st)"
  shows "(\<exists>q. findById (p_id p) (patients (fst (reminderTick tz w now st))) = Some q \<and>
            (if reactivationDue now p \<and> smsResult w (p_id p) SmartReactivation \<noteq> Threw
             then reminderAttempts q = 0 \<and> smsReminderCycle q = new_user
             else reminderAttempts p \<le> reminderAttempts q \<and>
                  reminderAttempts q \<le> reminderAttempts p + 1 \<and>
                  (smsReminderCycle q \<noteq> smsReminderCycle p \<longrightarrow>
                     (reminderAttempts q = 2 \<or> reminderAttempts q = 3) \<and>
                     (smsReminderCycle q = inactive_user \<or> smsReminderCycle q = admin_notified)))) \<and>
         (status (fst (logDose tz (p_id p) tp T st)) = 201 \<longrightarrow>
            (\<exists>q. findById (p_id p) (patients (snd (logDose tz (p_id p) tp T st))) = Some q \<and>
                 reminderAttempts q = 0 \<and> smsReminderCycle q = active_user))"
proof -
  let ?q = "fst (patientTick tz w now (doses st) p)"
  have tick: "findById (p_id p) (patients (fst (reminderTick tz w now st))) = Some ?q"
    by (rule reminderTick_patient(1)[OF assms])
  have handled: "reminderAttempts ?q = 0 \<and> smsReminderCycle ?q = new_user"
    if "reactivationDue now p \<and> smsResult w (p_id p) SmartReactivation \<noteq> Threw"
    using that by (simp add: patientTick_reactivated reactivationReset_def)
  have other: "reminderAttempts p \<le> reminderAttempts ?q \<and>
      reminderAttempts ?q \<le> reminderAttempts p + 1 \<and>
      (smsReminderCycle ?q \<noteq> smsReminderCycle p \<longrightarrow>
         (reminderAttempts ?q = 2 \<or> reminderAttempts ?q = 3) \<and>
         (smsReminderCycle ?q = inactive_user \<or> smsReminderCycle ?q = admin_notified))"
    if "\<not> (reactivationDue now p \<and> smsResult w (p_id p) SmartReactivation \<noteq> Threw)"
    using that by (rule patientTick_attempts) simp
  have dose: "\<exists>q. findById (p_id p) (patients (snd (logDose tz (p_id p) tp T st))) = Some q \<and>
                 reminderAttempts q = 0 \<and> smsReminderCycle q = active_user"
    if "status (fst (logDose tz (p_id p) tp T st)) = 201"
    by (simp add: logDose_accepted[OF assms that] doseReset_def)
  show ?thesis
    using handled other dose unfolding tick by simp
qed

theorem attempts_forward_or_reset_witness:
  "distinct (map p_id (patients \<lparr>patients = [finalDue], doses = [dose0]\<rparr>)) \<and>
   finalDue \<in> set (patients \<lparr>patients = [finalDue], doses = [dose0]\<rparr>) \<and>
   \<not> reactivationDue 200000000 finalDue \<and>
   status (fst (logDose utcZone (p_id finalDue) (Some ''Bolus'') 200000000
      \<lparr>patients = [finalDue], doses = [dose0]\<rparr>)) = 201 \<and>
   (\<exists>q. findById (p_id finalDue) (patients (fst (reminderTick utcZone worldNoAdmins 200000000
            \<lparr>patients = [finalDue], doses = [dose0]\<rparr>))) = Some q \<and>
        reminderAttempts q = 3 \<and> smsReminderCycle q = inactive_user \<and>
        reminderAttempts finalDue \<le> reminderAttempts q) \<and>
   (\<exists>q. findById (p_id finalDue) (patients (snd (logDose utcZone (p_id finalDue) (Some ''Bolus'') 200000000
            \<lparr>patients = [finalDue], doses = [dose0]\<rparr>))) = Some q \<and>
        reminderAttempts q = 0 \<and> smsReminderCycle q = active_user) \<and>
   distinct (map p_id (patients \<lparr>patients = [reactivated], doses = [dose0]\<rparr>)) \<and>
   reactivated \<in> set (patients \<lparr>patients = [reactivated], doses = [dose0]\<rparr>) \<and>
   reactivationDue 601000 reactivated \<and>
   smsResult world0 (p_id reactivated) SmartReactivation \<noteq> Threw \<and>
   reminderAttempts reactivated = 3 \<and>
   (\<exists>q. findById (p_id reactivated) (patients (fst (reminderTick utcZone world0 601000
            \<lparr>patients = [reactivated], doses = [dose0]\<rparr>))) = Some q \<and>
        reminderAttempts q = 0 \<and> smsReminderCycle q = new_user)"
proof -
  let ?st = "\<lparr>patients = [finalDue], doses = [dose0]\<rparr>"
  let ?st' = "\<lparr>patients = [reactivated], doses = [dose0]\<rparr>"
  have d: "distinct (map p_id (patients ?st))" and m: "finalDue \<in> set (patients ?st)"
    and d': "distinct (map p_id (patients ?st'))" and m': "reactivated \<in> set (patients ?st')"
    by simp_all
  have n: "\<not> reactivationDue 200000000 finalDue"
    by (simp add: reactivationDue_def reactivationQuery_def finalDue_def activeUser_def patient0_def)
  have s: "status (fst (logDose utcZone (p_id finalDue) (Some ''Bolus'') 200000000 ?st)) = 201"
    by (simp add: logDose_def castType_def lastBasalDose_def Let_def finalDue_def activeUser_def
        patient0_def dose0_def msPerHour_def)
  have t: "reminderTick utcZone worldNoAdmins 200000000 ?st =
     (\<lparr>patients = [finalDue\<lparr>reminderAttempts := 3, lastReminderSent := Some 200000000,
                             smsReminderCycle := inactive_user\<rparr>], doses = [dose0]\<rparr>,
      [Sms 1 ThirdReminder Sent])"
    by (simp add: tick_eval finalDue_def activeUser_def patient0_def dose0_def worldNoAdmins_def
      world0_def)
  have r: "reactivationDue 601000 reactivated"
    "smsResult world0 (p_id reactivated) SmartReactivation \<noteq> Threw"
    "reminderAttempts reactivated = 3"
    by (simp_all add: reactivationDue_def reactivationQuery_def notYetHandled_def reactivated_def
        patient0_def world0_def)
  have a: "(\<exists>q. findById (p_id finalDue) (patients (fst (reminderTick utcZone worldNoAdmins 200000000 ?st))) = Some q \<and>
        reminderAttempts q = 3 \<and> smsReminderCycle q = inactive_user \<and>
        reminderAttempts finalDue \<le> reminderAttempts q) \<and>
     (\<exists>q. findById (p_id finalDue) (patients (snd (logDose utcZone (p_id finalDue) (Some ''Bolus'') 200000000 ?st))) = Some q \<and>
        reminderAttempts q = 0 \<and> smsReminderCycle q = active_user)"
    using attempts_forward_or_reset[OF d m, where tz = utcZone and w = worldNoAdmins
        and now = 200000000 and tp = "Some ''Bolus''" and T = 200000000] n s
    by (simp add: t findById_def)
  have b: "\<exists>q. findById (p_id reactivated) (patients (fst (reminderTick utcZone world0 601000 ?st'))) = Some q \<and>
        reminderAttempts q = 0 \<and> smsReminderCycle q = new_user"
    using attempts_forward_or_reset[OF d' m', where tz = utcZone and w = world0 and now = 601000
        and tp = None and T = 0] r by auto
  show ?thesis using a b d m d' m' n s r by blast
qed

text \<open>
  C6, as stated, fails: the query has one more condition, \<open>lastActivationDate > date\<close>, the
  date of the account's creation. A patient with all the flags of the claim whose
  \<open>lastActivationDate\<close> is not later than \<open>date\<close> is not handled: the tick sends nothing
  and writes nothing.
\<close>

theorem reactivation_handling_counterexample:
  "active justCreated \<and> verified justCreated \<and> previousActiveState justCreated = Some False \<and>
   lastActivationDate justCreated = Some 1000 \<and> 601000 - 2 * msPerHour \<le> 1000 \<and>
   welcomeSmsSentAt justCreated = None \<and>
   reminderTick utcZone world0 601000 \<lparr>patients = [justCreated], doses = []\<rparr> =
     (\<lparr>patients = [justCreated], doses = []\<rparr>, [])"
  by (simp add: tick_eval justCreated_def patient0_def world0_def msPerHour_def)

text \<open>
  C6, amended. A tick calls the reactivation message for a patient of the store exactly when
  the patient has \<open>active\<close>, \<open>verified\<close>, \<open>previousActiveState = false\<close>, a
  \<open>lastActivationDate\<close> that is not more than two hours before \<open>now\<close> and later than
  \<open>date\<close>, and \<open>welcomeSmsSentAt\<close> absent or before \<open>lastActivationDate\<close>. Unless the call
  throws, the tick then leaves the patient with cycle \<open>new_user\<close>, \<open>hasLoggedFirstDose\<close>
  false, \<open>reminderAttempts = 0\<close>, no \<open>lastReminderSent\<close>, no \<open>nextReminderTime\<close> and
  \<open>welcomeSmsSentAt = now\<close>, all other fields as they were.
\<close>

theorem reactivation_handling:
  assumes "distinct (map p_id (patients st))" and "p \<in> set (patients st)"
  shows "((\<exists>r. Sms (p_id p) SmartReactivation r \<in> set (snd (reminderTick tz w now st))) \<longleftrightarrow>
            active p \<and> verified p \<and> previousActiveState p = Some False \<and>
            (\<exists>a. lastActivationDate p = Some a \<and> now - 2 * msPerHour \<le> a \<and> date p < a \<and>
                 (welcomeSmsSentAt p = None \<or> (\<exists>h. welcomeSmsSentAt p = Some h \<and> h < a)))) \<and>
         ((\<exists>r. Sms (p_id p) SmartReactivation r \<in> set (snd (reminderTick tz w now st)) \<and> r \<noteq> Threw) \<longrightarrow>
            findById (p_id p) (patients (fst (reminderTick tz w now st))) =
              Some (p\<lparr>smsReminderCycle := new_user, hasLoggedFirstDose := False,
                      reminderAttempts := 0, lastReminderSent := None,
                      nextReminderTime := None, welcomeSmsSentAt := Some now\<rparr>))"
proof -
  have ev: "Sms (p_id p) SmartReactivation r \<in> set (snd (reminderTick tz w now st)) \<longleftrightarrow>
      reactivationDue now p \<and> r = smsResult w (p_id p) SmartReactivation" for r
    using own_events[of "Sms (p_id p) SmartReactivation r" "p_id p" "snd (reminderTick tz w now st)"]
    by (simp add: reminderTick_patient(2)[OF assms] patientTick_reactivation_event)
  have reset: "findById (p_id p) (patients (fst (reminderTick tz w now st))) =
      Some (reactivationReset now p)"
    if "reactivationDue now p" "smsResult w (p_id p) SmartReactivation \<noteq> Threw"
    by (simp add: reminderTick_patient(1)[OF assms] patientTick_reactivated[OF that])
  show ?thesis
    using reset unfolding ev reactivationDue_iff[symmetric]
    by (auto simp: reactivationReset_def)
qed

theorem reactivation_handling_witness:
  "distinct (map p_id (patients \<lparr>patients = [reactivated], doses = [dose0]\<rparr>)) \<and>
   reactivated \<in> set (patients \<lparr>patients = [reactivated], doses = [dose0]\<rparr>) \<and>
   (\<exists>r. Sms (p_id reactivated) SmartReactivation r
         \<in> set (snd (reminderTick utcZone world0 601000 \<lparr>patients = [reactivated], doses = [dose0]\<rparr>)) \<and>
        r \<noteq> Threw) \<and>
   active reactivated \<and> verified reactivated \<and> previousActiveState reactivated = Some False \<and>
   lastActivationDate reactivated = Some 1000 \<and> 601000 - 2 * msPerHour \<le> 1000 \<and>
   date reactivated < 1000 \<and> welcomeSmsSentAt reactivated = None \<and>
   findById (p_id reactivated)
     (patients (fst (reminderTick utcZone world0 601000 \<lparr>patients = [reactivated], doses = [dose0]\<rparr>))) =
     Some (reactivated\<lparr>smsReminderCycle := new_user, hasLoggedFirstDose := False,
                       reminderAttempts := 0, lastReminderSent := None,
                       nextReminderTime := None, welcomeSmsSentAt := Some 601000\<rparr>)"
proof -
  let ?st = "\<lparr>patients = [reactivated], doses = [dose0]\<rparr>"
  have d: "distinct (map p_id (patients ?st))" and m: "reactivated \<in> set (patients ?st)"
    by simp_all
  have t: "snd (reminderTick utcZone world0 601000 ?st) = [Sms 1 SmartReactivation Sent]"
    by (simp add: tick_eval reactivated_def patient0_def dose0_def world0_def)
  have i: "p_id reactivated = 1" by (simp add: reactivated_def patient0_def)
  have e: "\<exists>r. Sms (p_id reactivated) SmartReactivation r \<in> set (snd (reminderTick utcZone world0 601000 ?st)) \<and>
        r \<noteq> Threw"
    by (simp add: t i)
  have f: "active reactivated" "verified reactivated" "previousActiveState reactivated = Some False"
    "lastActivationDate reactivated = Some 1000" "601000 - 2 * msPerHour \<le> 1000"
    "date reactivated < 1000" "welcomeSmsSentAt reactivated = None"
    by (simp_all add: reactivated_def patient0_def msPerHour_def)
  show ?thesis
    using reactivation_handling[OF d m, of utcZone world0 601000] d m e f by blast
qed

text \<open>
  C7, as stated, fails for the reactivation message: \<^verbatim>\<open>handleReactivation\<close> logs an
  unsuccessful result and writes the reset all the same, so the patient's reminder state
  changes although the send failed.
\<close>

theorem failed_send_counterexample:
  "smsResult worldFailing (p_id reactivated) SmartReactivation = Failed \<and>
   reminderTick utcZone worldFailing 601000 \<lparr>patients = [reactivated], doses = [dose0]\<rparr> =
     (\<lparr>patients = [reactivated\<lparr>smsReminderCycle := new_user, hasLoggedFirstDose := False,
                                reminderAttempts := 0, lastReminderSent := None,
                                nextReminderTime := None, welcomeSmsSentAt := Some 601000\<rparr>],
       doses = [dose0]\<rparr>,
      [Sms 1 SmartReactivation Failed]) \<and>
   smsReminderCycle reactivated = admin_notified \<and> reminderAttempts reactivated = 3"
  by (simp add: tick_eval reactivated_def patient0_def dose0_def worldFailing_def world0_def)

text \<open>
  C7, amended. For every patient of the store and every reminder message (6-hour, 24-hour,
  23h30m, 24h30m, final) that a tick tries for the patient and that fails, by an
  unsuccessful result or a thrown error: the tick leaves the patient's document as it was;
  for every other patient the tick writes and sends what it would with any other answers of
  the provider for the failing patient, so the failure does not stop the scan; and a later
  tick on the store that this tick left, at any time from \<open>now\<close> on that does not handle the
  patient's reactivation, tries the same message again. In \<^verbatim>\<open>handleReactivation\<close> and in
  \<^verbatim>\<open>sendAdminNotification\<close> a thrown error leaves the collection as it was.
\<close>

theorem failed_reminder_leaves_state:
  assumes "distinct (map p_id (patients st))" and "p \<in> set (patients st)"
    and "Sms (p_id p) k r \<in> set (snd (reminderTick tz w now st))"
    and "k \<noteq> SmartReactivation" and "r \<noteq> Sent"
  shows "findById (p_id p) (patients (fst (reminderTick tz w now st))) = Some p \<and>
         (\<forall>q\<in>set (patients st). \<forall>f. p_id q \<noteq> p_id p \<longrightarrow>
            findById (p_id q)
              (patients (fst (reminderTick tz (w\<lparr>smsResult := (smsResult w)(p_id p := f)\<rparr>) now st))) =
            findById (p_id q) (patients (fst (reminderTick tz w now st))) \<and>
            eventsFor (p_id q)
              (snd (reminderTick tz (w\<lparr>smsResult := (smsResult w)(p_id p := f)\<rparr>) now st)) =
            eventsFor (p_id q) (snd (reminderTick tz w now st))) \<and>
         (\<forall>w' now'. now \<le> now' \<and> \<not> reactivationDue now' p \<longrightarrow>
            Sms (p_id p) k (smsResult w' (p_id p) k)
              \<in> set (snd (reminderTick tz w' now' (fst (reminderTick tz w now st))))) \<and>
         (smsResult w (p_id p) SmartReactivation = Threw \<longrightarrow>
            fst (handleReactivation w now p s) = fst s) \<and>
         (adminMailResult w (p_id p) = Threw \<longrightarrow>
            fst (sendAdminNotification w now p s) = fst s)"
proof -
  let ?st1 = "fst (reminderTick tz w now st)"
  have e: "Sms (p_id p) k r \<in> set (snd (patientTick tz w now (doses st) p))"
    using own_events[of "Sms (p_id p) k r" "p_id p" "snd (reminderTick tz w now st)"] assms(3)
    by (simp add: reminderTick_patient(2)[OF assms(1,2)])
  have same: "fst (patientTick tz w now (doses st) p) = p"
    by (rule patientTick_failed_reminder(1)[OF e assms(4,5)])
  have a: "findById (p_id p) (patients ?st1) = Some p"
    by (simp add: reminderTick_patient(1)[OF assms(1,2)] same)
  have b: "findById (p_id q)
              (patients (fst (reminderTick tz (w\<lparr>smsResult := (smsResult w)(p_id p := f)\<rparr>) now st))) =
            findById (p_id q) (patients ?st1) \<and>
            eventsFor (p_id q)
              (snd (reminderTick tz (w\<lparr>smsResult := (smsResult w)(p_id p := f)\<rparr>) now st)) =
            eventsFor (p_id q) (snd (reminderTick tz w now st))"
    if "q \<in> set (patients st)" "p_id q \<noteq> p_id p" for q f
    by (simp add: reminderTick_patient[OF assms(1) that(1)] patientTick_other_world[OF that(2)])
  have d1: "distinct (map p_id (patients ?st1))"
    by (rule reminderTick_distinct[OF assms(1)])
  have m1: "p \<in> set (patients ?st1)"
    using reminderTick_member[OF assms(1,2), of tz w now] by (simp add: same)
  have ds1: "doses ?st1 = doses st"
    using reminderTick_run[OF assms(1), of tz w now] by simp
  have c: "Sms (p_id p) k (smsResult w' (p_id p) k) \<in> set (snd (reminderTick tz w' now' ?st1))"
    if "now \<le> now'" "\<not> reactivationDue now' p" for w' now'
  proof -
    have "Sms (p_id p) k (smsResult w' (p_id p) k) \<in> set (snd (patientTick tz w' now' (doses st) p))"
      by (rule patientTick_retry[OF e assms(4,5) that])
    then show ?thesis
      using own_events[of "Sms (p_id p) k (smsResult w' (p_id p) k)" "p_id p"
          "snd (reminderTick tz w' now' ?st1)"]
      by (simp add: reminderTick_patient(2)[OF d1 m1] ds1)
  qed
  have t1: "smsResult w (p_id p) SmartReactivation = Threw \<longrightarrow>
            fst (handleReactivation w now p s) = fst s"
    by (simp add: handleReactivation_def)
  have t2: "adminMailResult w (p_id p) = Threw \<longrightarrow>
            fst (sendAdminNotification w now p s) = fst s"
    by (simp add: sendAdminNotification_def Let_def)
  show ?thesis using a b c t1 t2 by blast
qed

theorem failed_reminder_leaves_state_witness:
  "distinct (map p_id (patients \<lparr>patients = [activeUser, newcomer], doses = [dose0]\<rparr>)) \<and>
   activeUser \<in> set (patients \<lparr>patients = [activeUser, newcomer], doses = [dose0]\<rparr>) \<and>
   newcomer \<in> set (patients \<lparr>patients = [activeUser, newcomer], doses = [dose0]\<rparr>) \<and>
   p_id newcomer \<noteq> p_id activeUser \<and>
   snd (reminderTick utcZone worldFailing 90000000 \<lparr>patients = [activeUser, newcomer], doses = [dose0]\<rparr>) =
     [Sms 2 (NewUserReminder 1) Failed, Sms 1 (DoseReminder 1) Failed] \<and>
   Sms (p_id activeUser) (DoseReminder 1) Failed
     \<in> set (snd (reminderTick utcZone worldFailing 90000000
                  \<lparr>patients = [activeUser, newcomer], doses = [dose0]\<rparr>)) \<and>
   DoseReminder 1 \<noteq> SmartReactivation \<and> Failed \<noteq> Sent \<and>
   90000000 \<le> (91800000::int) \<and> \<not> reactivationDue 91800000 activeUser \<and>
   findById (p_id activeUser) (patients (fst (reminderTick utcZone worldFailing 90000000
       \<lparr>patients = [activeUser, newcomer], doses = [dose0]\<rparr>))) = Some activeUser \<and>
   eventsFor (p_id newcomer)
     (snd (reminderTick utcZone (worldFailing\<lparr>smsResult := (smsResult worldFailing)(p_id activeUser := (\<lambda>k. Sent))\<rparr>)
             90000000 \<lparr>patients = [activeUser, newcomer], doses = [dose0]\<rparr>)) =
     [Sms 2 (NewUserReminder 1) Failed] \<and>
   Sms (p_id activeUser) (DoseReminder 1) Sent
     \<in> set (snd (reminderTick utcZone world0 91800000
          (fst (reminderTick utcZone worldFailing 90000000
             \<lparr>patients = [activeUser, newcomer], doses = [dose0]\<rparr>))))"
proof -
  let ?st = "\<lparr>patients = [activeUser, newcomer], doses = [dose0]\<rparr>"
  have d: "distinct (map p_id (patients ?st))"
    and m: "activeUser \<in> set (patients ?st)" and m2: "newcomer \<in> set (patients ?st)"
    and i: "p_id newcomer \<noteq> p_id activeUser" "p_id activeUser = 1" "p_id newcomer = 2"
    by (simp_all add: activeUser_def newcomer_def patient0_def)
  have t: "snd (reminderTick utcZone worldFailing 90000000 ?st) =
      [Sms 2 (NewUserReminder 1) Failed, Sms 1 (DoseReminder 1) Failed]"
    by (simp add: tick_eval activeUser_def newcomer_def patient0_def dose0_def worldFailing_def
        world0_def)
  have e: "Sms (p_id activeUser) (DoseReminder 1) Failed \<in> set (snd (reminderTick utcZone worldFailing 90000000 ?st))"
    by (simp add: t i)
  have n: "\<not> reactivationDue 91800000 activeUser"
    by (simp add: reactivationDue_def reactivationQuery_def activeUser_def patient0_def)
  have s0: "smsResult world0 j k = Sent" for j k
    by (simp add: world0_def)
  note inst = failed_reminder_leaves_state[OF d m e, of "(patients ?st, [])"]
  have k: "DoseReminder 1 \<noteq> SmartReactivation" "Failed \<noteq> Sent" by simp_all
  from inst[OF k] have
    a: "findById (p_id activeUser) (patients (fst (reminderTick utcZone worldFailing 90000000 ?st))) =
       Some activeUser"
    and b: "eventsFor (p_id newcomer)
        (snd (reminderTick utcZone (worldFailing\<lparr>smsResult := (smsResult worldFailing)(p_id activeUser := (\<lambda>k. Sent))\<rparr>)
             90000000 ?st)) = eventsFor (p_id newcomer) (snd (reminderTick utcZone worldFailing 90000000 ?st))"
    and c: "Sms (p_id activeUser) (DoseReminder 1) (smsResult world0 (p_id activeUser) (DoseReminder 1))
       \<in> set (snd (reminderTick utcZone world0 91800000 (fst (reminderTick utcZone worldFailing 90000000 ?st))))"
    using m2 i(1) n by auto
  show ?thesis
    using a b c d m m2 e n by (simp add: t i s0 eventsFor_def)
qed

text \<open>
  C9, as stated, fails in the reactivation loop, which does not look at the phone: for a
  reactivated patient without a phone the tick calls the reactivation message and writes the
  reset. (The admin-alert loop does not look at the phone either.)
\<close>

theorem no_phone_counterexample:
  "\<not> hasPhone reactivatedNoPhone \<and>
   reminderTick utcZone worldFailing 601000 \<lparr>patients = [reactivatedNoPhone], doses = [dose0]\<rparr> =
     (\<lparr>patients = [reactivatedNoPhone\<lparr>smsReminderCycle := new_user, hasLoggedFirstDose := False,
                                       reminderAttempts := 0, lastReminderSent := None,
                                       nextReminderTime := None,
                                       welcomeSmsSentAt := Some 601000\<rparr>],
       doses = [dose0]\<rparr>,
      [Sms 1 SmartReactivation Failed]) \<and>
   smsReminderCycle reactivatedNoPhone = admin_notified \<and> reminderAttempts reactivatedNoPhone = 3"
  by (simp add: tick_eval reactivatedNoPhone_def reactivated_def patient0_def dose0_def
      worldFailing_def world0_def)

text \<open>
  C9, amended. For every patient of the store with no phone number whose reactivation the
  tick does not handle and whom the inactive-user query does not return, so in the new-user
  and the active-user loop, a tick makes no call for the patient, no SMS and no other, and
  leaves the patient's document as it was.
\<close>

theorem no_phone_skipped:
  assumes "distinct (map p_id (patients st))" and "p \<in> set (patients st)"
    and "\<not> hasPhone p" and "\<not> reactivationDue now p" and "\<not> inactiveUserQuery p"
  shows "eventsFor (p_id p) (snd (reminderTick tz w now st)) = [] \<and>
         findById (p_id p) (patients (fst (reminderTick tz w now st))) = Some p"
  by (simp add: reminderTick_patient[OF assms(1,2)] patientTick_no_phone[OF assms(3,4,5)])

theorem no_phone_skipped_witness:
  "distinct (map p_id (patients \<lparr>patients = [activeUser\<lparr>phone := None\<rparr>], doses = [dose0]\<rparr>)) \<and>
   activeUser\<lparr>phone := None\<rparr>
     \<in> set (patients \<lparr>patients = [activeUser\<lparr>phone := None\<rparr>], doses = [dose0]\<rparr>) \<and>
   \<not> hasPhone (activeUser\<lparr>phone := None\<rparr>) \<and>
   \<not> reactivationDue 90000000 (activeUser\<lparr>phone := None\<rparr>) \<and>
   \<not> inactiveUserQuery (activeUser\<lparr>phone := None\<rparr>) \<and>
   activeUserQuery (activeUser\<lparr>phone := None\<rparr>) \<and>
   eventsFor (p_id (activeUser\<lparr>phone := None\<rparr>))
     (snd (reminderTick utcZone world0 90000000
        \<lparr>patients = [activeUser\<lparr>phone := None\<rparr>], doses = [dose0]\<rparr>)) = [] \<and>
   findById (p_id (activeUser\<lparr>phone := None\<rparr>))
     (patients (fst (reminderTick utcZone world0 90000000
        \<lparr>patients = [activeUser\<lparr>phone := None\<rparr>], doses = [dose0]\<rparr>))) =
     Some (activeUser\<lparr>phone := None\<rparr>)"
proof -
  let ?p = "activeUser\<lparr>phone := None\<rparr>"
  let ?st = "\<lparr>patients = [?p], doses = [dose0]\<rparr>"
  have d: "distinct (map p_id (patients ?st))" and m: "?p \<in> set (patients ?st)"
    by simp_all
  have h: "\<not> hasPhone ?p" "\<not> reactivationDue 90000000 ?p" "\<not> inactiveUserQuery ?p"
    "activeUserQuery ?p"
    by (simp_all add: hasPhone_def reactivationDue_def reactivationQuery_def inactiveUserQuery_def
        activeUserQuery_def activeUser_def patient0_def)
  show ?thesis
    using no_phone_skipped[OF d m h(1,2,3), of utcZone world0] d m h by blast
qed

text \<open>
  C8. Whenever \<open>daysUntilExpiry \<le> 0\<close> the tick is to deactivate the patient; the code's
  comment says so (\<^verbatim>\<open>Deactivate the patient account if subscription is expired\<close>), and its
  \<^verbatim>\<open>catch\<close> treats a throw as a failed notification only. But the deactivation stands
  after the expired notice in the same \<^verbatim>\<open>try\<close> block: for a patient whose subscription
  runs out at the time of the tick (\<open>daysUntilExpiry = 0\<close>) and a
  \<^verbatim>\<open>sendSubscriptionExpiredNotification\<close> that throws, the tick tries the notice and
  leaves the patient active, with no \<open>deactivatedAt\<close> and no \<open>deactivationReason\<close>. The
  rest of the claim holds (\<open>subscriptionTick_behaviour\<close>).
\<close>

theorem subscription_deactivation_skipped:
  "subscriptionQuery expiring \<and> newDate (subscriptionExpiry expiring) = Some 1000 \<and>
   daysUntilExpiry 1000 1000 = 0 \<and> active expiring \<and>
   subscriptionTick mailThrows 1000 \<lparr>patients = [expiring], doses = [dose0]\<rparr> =
     (\<lparr>patients = [expiring], doses = [dose0]\<rparr>, [Mail 1 ExpiredNotification Threw]) \<and>
   findById 1 (patients (fst (subscriptionTick mailThrows 1000
       \<lparr>patients = [expiring], doses = [dose0]\<rparr>))) \<noteq>
     Some (expiring\<lparr>active := False, deactivatedAt := Some 1000,
                    deactivationReason := Some ''Subscription expired''\<rparr>)"
  by (simp add: subscription_eval expiring_def activeUser_def patient0_def mailThrows_def
      findById_def)

end
